theory Spec2Isabelle
  imports Main
begin

section \<open>The su client of Magisk: data model\<close>

text \<open>
  The development embeds \<^verbatim>\<open>su_client_main\<close>, \<^verbatim>\<open>sighandler\<close>,
  \<^verbatim>\<open>setup_sighandlers\<close> and \<^verbatim>\<open>usage\<close> of the su client. The client is a
  sequence of system calls; the model returns the sequence of calls it makes (a trace of
  \<open>event\<close>s) together with the way the function ends. Everything the client reads from
  outside (the password database, the daemon's answers, whether a stream is a terminal)
  is a field of the record \<open>world\<close>.
\<close>

type_synonym fd = int

definition STDIN_FILENO :: fd where "STDIN_FILENO = 0"
definition STDOUT_FILENO :: fd where "STDOUT_FILENO = 1"
definition STDERR_FILENO :: fd where "STDERR_FILENO = 2"

definition EXIT_SUCCESS :: int where "EXIT_SUCCESS = 0"

text \<open>\<^verbatim>\<open>EACCES\<close> and the text \<^verbatim>\<open>strerror\<close> gives for it, as on Linux and Android.\<close>

definition EACCES :: int where "EACCES = 13"
definition strerror_EACCES :: string where "strerror_EACCES = ''Permission denied''"

definition newline :: string where "newline = [CHR 0x0A]"

text \<open>The signal numbers of Linux, and the zero-terminated array \<^verbatim>\<open>quit_signals\<close>.\<close>

definition SIGHUP :: nat where "SIGHUP = 1"
definition SIGINT :: nat where "SIGINT = 2"
definition SIGQUIT :: nat where "SIGQUIT = 3"
definition SIGABRT :: nat where "SIGABRT = 6"
definition SIGPIPE :: nat where "SIGPIPE = 13"
definition SIGALRM :: nat where "SIGALRM = 14"
definition SIGTERM :: nat where "SIGTERM = 15"

definition quit_signals :: "nat list" where
  "quit_signals = [SIGALRM, SIGABRT, SIGHUP, SIGPIPE, SIGQUIT, SIGTERM, SIGINT, 0]"

text \<open>
  The value of \<^verbatim>\<open>sa_handler\<close> in a \<^verbatim>\<open>struct sigaction\<close>: the default disposition, or
  the address of the function \<^verbatim>\<open>sighandler\<close> (the only handler the client installs).
\<close>

datatype sa_handler = SIG_DFL | Sighandler

text \<open>
  \<^verbatim>\<open>su_req_base\<close> holds the fixed-layout fields, \<^verbatim>\<open>su_request\<close> extends it by the two
  strings (in C++ by inheritance, here by record extension).
\<close>

record su_req_base =
  uid :: int
  login :: bool
  keepenv :: bool
  mount_master :: bool

record su_request = su_req_base +
  shell :: string
  command :: string

text \<open>The streams \<^verbatim>\<open>usage\<close> and the option loop print to.\<close>

datatype stream = Stdout | Stderr

text \<open>
  One constructor per call that reaches outside the process. The blocking output pump
  returns in one of two ways: \<open>E_pump_stdout_eos\<close>, it has seen the end of the stream on
  the master; \<open>E_pump_stdout_unblocked\<close>, the closing of the standard streams by the
  signal handler has forced it out.
\<close>

datatype event =
    E_connect_daemon
  | E_xwrite_req fd su_req_base
  | E_write_int fd int
  | E_xwrite_bytes fd string
  | E_read_int fd
  | E_fprintf stream string
  | E_printf_d int
  | E_isatty fd
  | E_send_fd fd fd
  | E_recv_fd fd
  | E_sigaction nat sa_handler
  | E_watch_sigwinch_async fd fd
  | E_set_stdin_raw
  | E_pump_stdin_async fd
  | E_pump_stdout_start fd
  | E_pump_stdout_eos fd
  | E_pump_stdout_unblocked fd
  | E_restore_stdin
  | E_close fd

text \<open>\<^verbatim>\<open>return n\<close> from \<^verbatim>\<open>su_client_main\<close>, or a call of \<^verbatim>\<open>exit(n)\<close> inside it.\<close>

datatype outcome = Return int | Exit int

text \<open>
  What the client reads from outside. \<open>ack_reply\<close> and \<open>code_reply\<close> are what the two
  reads of an integer from the channel deliver (\<open>None\<close>: the read fails).
  \<open>pump_signal\<close> is a signal that is delivered while the output pump blocks, if one is.
  \<open>comm_error_text\<close> is the message of a communication error and \<open>comm_error_code\<close> its
  exit status less one (the spec says of the status only that it is not zero). The
  compile-time constants of headers that are not among the sources (\<^verbatim>\<open>DEFAULT_SHELL\<close>,
  the default uid of \<^verbatim>\<open>su_req_base\<close>, \<^verbatim>\<open>MAGISK_VER_CODE\<close>, \<^verbatim>\<open>MAGISK_VERSION\<close>) and the
  helper \<^verbatim>\<open>parse_int\<close> are parameters as well. \<open>getpwnam\<close> gives the \<^verbatim>\<open>pw_uid\<close> of a
  user name, \<open>posixly_correct\<close> says whether \<^verbatim>\<open>POSIXLY_CORRECT\<close> is set in the environment,
  \<open>daemon_fd\<close> is the descriptor \<^verbatim>\<open>connect_daemon\<close> returns and \<open>ptmx_fd\<close> the one
  \<^verbatim>\<open>recv_fd\<close> returns.
\<close>

record world =
  getpwnam :: "string \<Rightarrow> int option"
  parse_int :: "string \<Rightarrow> int"
  posixly_correct :: bool
  DEFAULT_SHELL :: string
  default_uid :: int
  MAGISK_VER_CODE :: int
  MAGISK_VERSION :: string
  daemon_fd :: fd
  ack_reply :: "int option"
  comm_error_text :: string
  comm_error_code :: nat
  stdin_tty :: bool
  stdout_tty :: bool
  stderr_tty :: bool
  ptmx_fd :: fd
  pump_signal :: "nat option"
  code_reply :: "int option"

section \<open>Helpers of the channel\<close>

text \<open>
  Modelled from the spec: \<^verbatim>\<open>read_int\<close> is not among the sources. "Reads one integer
  ... from the channel ... A read failure here (channel closed/errored unexpectedly) is a
  distinct fatal communication error, not conflated with a legitimately nonzero remote
  exit status"; "CommunicationError: the channel closed or errored mid-protocol; fatal,
  distinct nonzero exit status, message to standard error; never retried". A read that
  succeeds returns the integer the channel delivered (\<open>Inr\<close>); a read that fails prints
  the message of the communication error to standard error and ends the process with
  the status of the communication error (\<open>Inl\<close>): it does not return to its caller.
\<close>

definition comm_error_status :: "world \<Rightarrow> int" where
  "comm_error_status w = 1 + int (comm_error_code w)"

definition read_int :: "world \<Rightarrow> int option \<Rightarrow> (event list \<times> outcome) + int" where
  "read_int w reply =
     (case reply of
        Some v \<Rightarrow> Inr v
      | None \<Rightarrow> Inl ([E_fprintf Stderr (comm_error_text w)], Exit (comm_error_status w)))"

text \<open>
  Modelled from the spec: \<^verbatim>\<open>write_string\<close> is not among the sources. "Transmits, in
  order: the request's fixed-layout fields, then the shell string, then the command
  string, each string length-prefixed so stream boundaries are unambiguous": the length
  as one integer, then the bytes.
\<close>

definition write_string :: "fd \<Rightarrow> string \<Rightarrow> event list" where
  "write_string f str = [E_write_int f (int (length str)), E_xwrite_bytes f str]"

text \<open>
  The bits of the terminal mask (\<^verbatim>\<open>ATTY_IN\<close>, \<^verbatim>\<open>ATTY_OUT\<close>, \<^verbatim>\<open>ATTY_ERR\<close> of su.hpp):
  three distinct single bits.
\<close>

definition ATTY_IN :: int where "ATTY_IN = 1"
definition ATTY_OUT :: int where "ATTY_OUT = 2"
definition ATTY_ERR :: int where "ATTY_ERR = 4"

section \<open>The signal handler\<close>

text \<open>
  \<^verbatim>\<open>for (int i = 0; quit_signals[i]; ++i) sigaction(quit_signals[i], &act, nullptr)\<close>:
  the loop of \<^verbatim>\<open>sighandler\<close> and of \<^verbatim>\<open>setup_sighandlers\<close>, which stops at the
  terminating zero.
\<close>

primrec sigaction_all :: "sa_handler \<Rightarrow> nat list \<Rightarrow> event list" where
  "sigaction_all h [] = []"
| "sigaction_all h (s # ss) = (if s = 0 then [] else E_sigaction s h # sigaction_all h ss)"

definition sighandler :: "nat \<Rightarrow> event list" where
  "sighandler sig =
     [E_restore_stdin,
      E_close STDIN_FILENO, E_close STDOUT_FILENO, E_close STDERR_FILENO]
     @ sigaction_all SIG_DFL quit_signals"

definition setup_sighandlers :: "sa_handler \<Rightarrow> event list" where
  "setup_sighandlers handler = sigaction_all handler quit_signals"

text \<open>
  Modelled from the spec: \<^verbatim>\<open>pump_stdin_async\<close> and \<^verbatim>\<open>pump_stdout_blocking\<close> (pts.cpp)
  are not among the sources. "Raw-mode guard: the local terminal is switched to raw
  mode"; "Input pump: continuously copies bytes from local stdin to the pseudo-terminal
  master, concurrently with the other tasks"; "Output pump: continuously copies bytes
  from the pseudo-terminal master to local stdout; this is the task the main control
  flow waits on. Its natural termination (end-of-stream on the master ...)";
  "Cancellation: no pump is explicitly cancelled on the success path; each terminates on
  natural stream closure. On a terminating signal, forced closure of the three standard
  streams unblocks any pump currently blocked on them." The input pump enters raw mode
  and starts its task. The output pump is one blocking call: with no signal it returns
  when it has seen the end of the stream; when a signal of \<^verbatim>\<open>quit_signals\<close> is delivered
  while it blocks, the handler (installed by then) runs, closes the standard streams
  and so forces the pump to return without the end of the stream. (The comment in
  \<^verbatim>\<open>sighandler\<close> says the same: "close all standard I/O to cause the pumps to exit so we
  can continue and retrieve the exit code".) Other signals are not modelled.
\<close>

definition pump_stdin_async :: "fd \<Rightarrow> event list" where
  "pump_stdin_async outfd = [E_set_stdin_raw, E_pump_stdin_async outfd]"

definition is_quit_signal :: "nat \<Rightarrow> bool" where
  "is_quit_signal sig = (sig \<noteq> 0 \<and> sig \<in> set (takeWhile (\<lambda>s. s \<noteq> 0) quit_signals))"

definition pump_stdout_blocking :: "world \<Rightarrow> fd \<Rightarrow> event list" where
  "pump_stdout_blocking w infd =
     E_pump_stdout_start infd #
     (case pump_signal w of
        None \<Rightarrow> [E_pump_stdout_eos infd]
      | Some sig \<Rightarrow>
          if is_quit_signal sig then sighandler sig @ [E_pump_stdout_unblocked infd]
          else [E_pump_stdout_eos infd])"

text \<open>
  The process as far as signals see it: the disposition of every signal, whether the
  terminal is in raw mode, the descriptors closed so far, and the signal that killed the
  process, if one did. \<open>exec_event\<close> is the effect of one call on it.
\<close>

record proc =
  disposition :: "nat \<Rightarrow> sa_handler"
  tty_raw :: bool
  closed :: "fd list"
  killed_by :: "nat option"

fun exec_event :: "event \<Rightarrow> proc \<Rightarrow> proc" where
  "exec_event (E_sigaction s h) p = p\<lparr>disposition := (disposition p)(s := h)\<rparr>"
| "exec_event E_set_stdin_raw p = p\<lparr>tty_raw := True\<rparr>"
| "exec_event E_restore_stdin p = p\<lparr>tty_raw := False\<rparr>"
| "exec_event (E_close f) p = p\<lparr>closed := closed p @ [f]\<rparr>"
| "exec_event _ p = p"

definition exec_events :: "event list \<Rightarrow> proc \<Rightarrow> proc" where
  "exec_events es p = foldl (\<lambda>q e. exec_event e q) p es"

text \<open>
  Delivery of a signal whose default action is to terminate the process (all of
  \<^verbatim>\<open>quit_signals\<close>), as the kernel does it: with the default disposition the process is
  killed by the signal; with a handler installed the handler runs and, when it returns,
  the process goes on.
\<close>

definition deliver :: "nat \<Rightarrow> proc \<Rightarrow> proc" where
  "deliver sig p =
     (if killed_by p \<noteq> None then p
      else case disposition p sig of
             SIG_DFL \<Rightarrow> p\<lparr>killed_by := Some sig\<rparr>
           | Sighandler \<Rightarrow> exec_events (sighandler sig) p)"

section \<open>The exchange with the daemon\<close>

text \<open>
  The second half of \<^verbatim>\<open>su_client_main\<close>, from \<^verbatim>\<open>connect_daemon\<close> to the final
  \<^verbatim>\<open>return\<close>, for the request the first half has built. Its statements are grouped as
  the comments of the source group them: \<open>send_request\<close> is "Connect to client" and
  "Send su_request" up to the read of the acknowledgment; \<open>atty_mask\<close> and \<open>send_fds\<close>
  are "Determine which one of our streams are attached to a TTY", the three \<^verbatim>\<open>send_fd\<close>
  calls and the first \<^verbatim>\<open>if (atty)\<close>; \<open>run_pumps\<close> is the second \<^verbatim>\<open>if (atty)\<close>;
  \<open>su_client_session\<close> puts them together with "Wait for ack from daemon" and "Get the
  exit code". \<open>E_read_int\<close> marks the call of \<^verbatim>\<open>read_int\<close>; what the call does when the
  read fails follows it in the trace.
\<close>

definition send_request :: "world \<Rightarrow> su_request \<Rightarrow> event list" where
  "send_request w su_req =
     [E_connect_daemon, E_xwrite_req (daemon_fd w) (su_req_base.truncate su_req)]
     @ write_string (daemon_fd w) (shell su_req)
     @ write_string (daemon_fd w) (command su_req)
     @ [E_read_int (daemon_fd w)]"

definition atty_mask :: "world \<Rightarrow> int" where
  "atty_mask w =
     (let atty = 0;
          atty = (if stdin_tty w then or atty ATTY_IN else atty);
          atty = (if stdout_tty w then or atty ATTY_OUT else atty);
          atty = (if stderr_tty w then or atty ATTY_ERR else atty)
      in atty)"

definition send_fds :: "world \<Rightarrow> int \<Rightarrow> event list" where
  "send_fds w atty =
     [E_isatty STDIN_FILENO, E_isatty STDOUT_FILENO, E_isatty STDERR_FILENO,
      E_send_fd (daemon_fd w) (if and atty ATTY_IN \<noteq> 0 then - 1 else STDIN_FILENO),
      E_send_fd (daemon_fd w) (if and atty ATTY_OUT \<noteq> 0 then - 1 else STDOUT_FILENO),
      E_send_fd (daemon_fd w) (if and atty ATTY_ERR \<noteq> 0 then - 1 else STDERR_FILENO)]
     @ (if atty \<noteq> 0 then [E_write_int (daemon_fd w) 1, E_recv_fd (daemon_fd w)]
        else [E_write_int (daemon_fd w) 0])"

definition run_pumps :: "world \<Rightarrow> int \<Rightarrow> event list" where
  "run_pumps w atty =
     (if atty \<noteq> 0 then
        setup_sighandlers Sighandler
        @ [E_watch_sigwinch_async STDOUT_FILENO (ptmx_fd w)]
        @ pump_stdin_async (ptmx_fd w)
        @ pump_stdout_blocking w (ptmx_fd w)
      else [])"

definition su_client_session :: "world \<Rightarrow> su_request \<Rightarrow> event list \<times> outcome" where
  "su_client_session w su_req =
     (case read_int w (ack_reply w) of
        Inl (es, out) \<Rightarrow> (send_request w su_req @ es, out)
      | Inr ack \<Rightarrow>
          if ack \<noteq> 0 then
            (send_request w su_req @ [E_fprintf Stderr (strerror_EACCES @ newline)],
             Return EACCES)
          else
            (case read_int w (code_reply w) of
               Inl (es, out) \<Rightarrow>
                 (send_request w su_req
                  @ send_fds w (atty_mask w)
                  @ run_pumps w (atty_mask w)
                  @ [E_read_int (daemon_fd w)] @ es,
                  out)
             | Inr code \<Rightarrow>
                 (send_request w su_req
                  @ send_fds w (atty_mask w)
                  @ run_pumps w (atty_mask w)
                  @ [E_read_int (daemon_fd w), E_close (daemon_fd w)],
                  Return code)))"

section \<open>The option parser of the C library\<close>

text \<open>
  \<^verbatim>\<open>getopt_long\<close> belongs to the C library, not to the repository. The model follows
  the implementation Android ships (the BSD \<^verbatim>\<open>getopt_long.c\<close>), for the option
  string and the table of \<^verbatim>\<open>su_client_main\<close>: short options may be clustered
  (\<^verbatim>\<open>-lM\<close>), an argument may be attached (\<^verbatim>\<open>-s/bin/sh\<close>) or be the next element, a
  long option may be abbreviated and may carry \<^verbatim>\<open>=value\<close>, \<^verbatim>\<open>--\<close> ends the options,
  and elements that are not options are skipped and moved behind the options (unless
  \<^verbatim>\<open>POSIXLY_CORRECT\<close> is set, when the first of them ends the scan). The messages
  \<^verbatim>\<open>getopt_long\<close> itself prints are not recorded. Its result is an \<^verbatim>\<open>int\<close>: \<open>None\<close>
  stands for \<open>-1\<close>, \<open>Some c\<close> for the code of the character \<open>c\<close>.
\<close>

datatype arg_kind = no_argument | required_argument | optional_argument

record long_option =
  name :: string
  has_arg :: arg_kind
  val :: char

definition long_opts :: "long_option list" where
  "long_opts =
     [\<lparr>name = ''command'', has_arg = required_argument, val = CHR ''c''\<rparr>,
      \<lparr>name = ''help'', has_arg = no_argument, val = CHR ''h''\<rparr>,
      \<lparr>name = ''login'', has_arg = no_argument, val = CHR ''l''\<rparr>,
      \<lparr>name = ''preserve-environment'', has_arg = no_argument, val = CHR ''p''\<rparr>,
      \<lparr>name = ''shell'', has_arg = required_argument, val = CHR ''s''\<rparr>,
      \<lparr>name = ''version'', has_arg = no_argument, val = CHR ''v''\<rparr>,
      \<lparr>name = ''context'', has_arg = required_argument, val = CHR ''z''\<rparr>,
      \<lparr>name = ''mount-master'', has_arg = no_argument, val = CHR ''M''\<rparr>]"

definition optstring :: string where
  "optstring = ''c:hlmps:Vvuz:M''"

text \<open>\<^verbatim>\<open>BADCH\<close>, and \<^verbatim>\<open>BADARG\<close> for an option string that does not start with a colon.\<close>

definition BADCH :: char where "BADCH = CHR ''?''"
definition BADARG :: char where "BADARG = CHR ''?''"

text \<open>
  The variables of the parser: \<^verbatim>\<open>optind\<close>, \<^verbatim>\<open>optarg\<close>, the scanning pointer \<^verbatim>\<open>place\<close>
  (the rest of the element being read) and the bounds of the block of skipped elements
  (\<open>None\<close> for \<open>-1\<close>), together with the vector, which the parser reorders.
\<close>

record getopt_state =
  nargv :: "string list"
  optind :: nat
  optarg :: "string option"
  place :: string
  nonopt_start :: "nat option"
  nonopt_end :: "nat option"

text \<open>
  \<^verbatim>\<open>permute_args\<close> exchanges the block of skipped elements \<open>[s, e)\<close> with the block
  of options \<open>[e, opt_end)\<close> behind it, keeping the order inside each block.
\<close>

definition permute_args :: "nat \<Rightarrow> nat \<Rightarrow> nat \<Rightarrow> string list \<Rightarrow> string list" where
  "permute_args s e opt_end v =
     take s v @ take (opt_end - e) (drop e v) @ take (e - s) (drop s v) @ drop opt_end v"

text \<open>An element that is not an option: it does not start with \<open>-\<close>, or it is \<open>-\<close> alone.\<close>

definition is_nonoption :: "string \<Rightarrow> bool" where
  "is_nonoption tok =
     (case tok of
        [] \<Rightarrow> True
      | c # cs \<Rightarrow> c \<noteq> CHR ''-'' \<or> (cs = [] \<and> CHR ''-'' \<notin> set optstring))"

text \<open>
  When the scan ends with skipped elements, they are moved behind the options and
  \<^verbatim>\<open>optind\<close> is set to the first of them.
\<close>

definition permute_back :: "getopt_state \<Rightarrow> getopt_state" where
  "permute_back st =
     (case (nonopt_start st, nonopt_end st) of
        (Some s, Some e) \<Rightarrow>
          st\<lparr>nargv := permute_args s e (optind st) (nargv st),
             optind := optind st - (e - s)\<rparr>
      | _ \<Rightarrow> st)"

definition skip_nonoption :: "getopt_state \<Rightarrow> getopt_state" where
  "skip_nonoption st =
     (case (nonopt_start st, nonopt_end st) of
        (None, _) \<Rightarrow> st\<lparr>nonopt_start := Some (optind st)\<rparr>
      | (Some s, Some e) \<Rightarrow>
          st\<lparr>nargv := permute_args s e (optind st) (nargv st),
             nonopt_start := Some (optind st - (e - s)),
             nonopt_end := None\<rparr>
      | (Some s, None) \<Rightarrow> st)"

text \<open>
  The block under the label \<^verbatim>\<open>start\<close>, entered when \<^verbatim>\<open>place\<close> is empty: \<open>Inl\<close> when the
  call returns \<open>-1\<close>, \<open>Inr\<close> with \<^verbatim>\<open>place\<close> behind the leading \<open>-\<close> of the next option.
\<close>

function getopt_start :: "bool \<Rightarrow> nat \<Rightarrow> getopt_state \<Rightarrow> getopt_state + getopt_state" where
  "getopt_start permute nargc st =
     (if nargc \<le> optind st then
        Inl ((case (nonopt_start st, nonopt_end st) of
                (Some s, None) \<Rightarrow> st\<lparr>optind := s\<rparr>
              | _ \<Rightarrow> permute_back st)
             \<lparr>place := [], nonopt_start := None, nonopt_end := None\<rparr>)
      else if is_nonoption (nargv st ! optind st) then
        (if \<not> permute then Inl (st\<lparr>place := []\<rparr>)
         else getopt_start permute nargc ((skip_nonoption st)\<lparr>optind := optind st + 1\<rparr>))
      else
        (let st1 = (if nonopt_start st \<noteq> None \<and> nonopt_end st = None
                    then st\<lparr>nonopt_end := Some (optind st)\<rparr> else st)
         in case tl (nargv st ! optind st) of
              [] \<Rightarrow> Inr (st1\<lparr>place := nargv st ! optind st\<rparr>)
            | rest \<Rightarrow>
                if rest = ''-'' then
                  Inl ((permute_back (st1\<lparr>optind := optind st + 1\<rparr>))
                       \<lparr>place := [], nonopt_start := None, nonopt_end := None\<rparr>)
                else Inr (st1\<lparr>place := rest\<rparr>)))"
  by pat_completeness auto
termination
  by (relation "measure (\<lambda>(permute, nargc, st). nargc - optind st)") auto

text \<open>
  The loop of \<^verbatim>\<open>parse_long_options\<close> over the table: the entry matched so far, whether
  the match is exact, and whether a second, different entry matches the abbreviation.
\<close>

fun long_match ::
  "string \<Rightarrow> long_option list \<Rightarrow> long_option option \<times> bool \<times> bool \<Rightarrow>
   long_option option \<times> bool \<times> bool" where
  "long_match np [] acc = acc"
| "long_match np (lo # los) (m, exact, second) =
     (if take (length np) (name lo) \<noteq> np then long_match np los (m, exact, second)
      else if length (name lo) = length np then (Some lo, True, second)
      else case m of
             None \<Rightarrow> long_match np los (Some lo, exact, second)
           | Some mo \<Rightarrow>
               if has_arg lo \<noteq> has_arg mo \<or> val lo \<noteq> val mo
               then long_match np los (m, exact, True)
               else long_match np los (m, exact, second))"

definition parse_long_options :: "nat \<Rightarrow> getopt_state \<Rightarrow> string \<Rightarrow> char \<times> getopt_state" where
  "parse_long_options nargc st0 current_argv =
     (let st = st0\<lparr>optind := optind st0 + 1\<rparr>;
          np = takeWhile (\<lambda>c. c \<noteq> CHR ''='') current_argv;
          has_equal = (if CHR ''='' \<in> set current_argv
                       then Some (tl (dropWhile (\<lambda>c. c \<noteq> CHR ''='') current_argv))
                       else None)
      in case long_match np long_opts (None, False, False) of
           (m, exact, second) \<Rightarrow>
             if \<not> exact \<and> second then (BADCH, st)
             else case m of
                    None \<Rightarrow> (BADCH, st)
                  | Some lo \<Rightarrow>
                      if has_arg lo = no_argument then
                        (if has_equal \<noteq> None then (BADCH, st) else (val lo, st))
                      else case has_equal of
                             Some a \<Rightarrow> (val lo, st\<lparr>optarg := Some a\<rparr>)
                           | None \<Rightarrow>
                               if has_arg lo = optional_argument then (val lo, st)
                               else if optind st < nargc then
                                 (val lo, st\<lparr>optarg := Some (nargv st ! optind st),
                                            optind := optind st + 1\<rparr>)
                               else (BADARG, st))"

text \<open>What the option string says of a character: \<open>c\<close>, \<open>c:\<close> or \<open>c::\<close>.\<close>

definition short_kind :: "char \<Rightarrow> arg_kind" where
  "short_kind c =
     (case dropWhile (\<lambda>x. x \<noteq> c) optstring of
        _ # x # y # _ \<Rightarrow>
          if x = CHR '':'' then (if y = CHR '':'' then optional_argument else required_argument)
          else no_argument
      | [_, x] \<Rightarrow> if x = CHR '':'' then required_argument else no_argument
      | _ \<Rightarrow> no_argument)"

text \<open>
  The rest of \<^verbatim>\<open>getopt_internal\<close>, with \<^verbatim>\<open>place\<close> inside an element: a long option when
  \<^verbatim>\<open>place\<close> starts with \<open>-\<close>, a short one otherwise. (\<^verbatim>\<open>place\<close> is never empty here.)
\<close>

definition getopt_option :: "nat \<Rightarrow> getopt_state \<Rightarrow> char option \<times> getopt_state" where
  "getopt_option nargc st =
     (case place st of
        [] \<Rightarrow> (None, st)
      | c # cs \<Rightarrow>
          if c = CHR ''-'' then
            (case parse_long_options nargc st cs of
               (optchar, st') \<Rightarrow> (Some optchar, st'\<lparr>place := []\<rparr>))
          else if c = CHR '':'' \<or> c \<notin> set optstring then
            (Some BADCH, if cs = [] then st\<lparr>place := cs, optind := optind st + 1\<rparr>
                         else st\<lparr>place := cs\<rparr>)
          else if short_kind c = no_argument then
            (Some c, if cs = [] then st\<lparr>place := cs, optind := optind st + 1\<rparr>
                     else st\<lparr>place := cs\<rparr>)
          else if cs \<noteq> [] then
            (Some c, st\<lparr>optarg := Some cs, place := [], optind := optind st + 1\<rparr>)
          else if short_kind c = optional_argument then
            (Some c, st\<lparr>place := [], optind := optind st + 1\<rparr>)
          else if nargc \<le> optind st + 1 then
            (Some BADARG, st\<lparr>place := [], optind := optind st + 1\<rparr>)
          else
            (Some c, st\<lparr>optarg := Some (nargv st ! (optind st + 1)), place := [],
                        optind := optind st + 2\<rparr>))"

definition getopt_long :: "bool \<Rightarrow> nat \<Rightarrow> getopt_state \<Rightarrow> char option \<times> getopt_state" where
  "getopt_long permute nargc st0 =
     (let st = st0\<lparr>optarg := None\<rparr>
      in if place st = [] then
           (case getopt_start permute nargc st of
              Inl st' \<Rightarrow> (None, st')
            | Inr st' \<Rightarrow> getopt_option nargc st')
         else getopt_option nargc st)"

declare getopt_start.simps [simp del]

subsection \<open>Every call that returns an option makes progress\<close>

text \<open>
  The rank of a parser state: it falls with every element consumed, and inside an
  element with every character consumed.
\<close>

definition getopt_rank :: "nat \<Rightarrow> getopt_state \<Rightarrow> nat" where
  "getopt_rank nargc st =
     (if place st = [] then (if nargc \<le> optind st then 0 else 2 * (nargc - optind st) + 2)
      else 2 * (nargc - optind st) + 1)"

lemma getopt_start_Inr:
  "getopt_start pm n st = Inr st' \<Longrightarrow>
     optind st \<le> optind st' \<and> optind st' < n \<and> place st' \<noteq> []"
proof (induction pm n st rule: getopt_start.induct)
  case (1 permute nargc st)
  note eq = "1.prems"[unfolded getopt_start.simps[of permute nargc st]]
  show ?case
  proof (cases "nargc \<le> optind st")
    case True
    with eq show ?thesis by simp
  next
    case False
    note inr = False
    show ?thesis
    proof (cases "is_nonoption (nargv st ! optind st)")
      case True
      note nonopt = True
      show ?thesis
      proof (cases permute)
        case True
        from eq inr nonopt True
        have "getopt_start permute nargc ((skip_nonoption st)\<lparr>optind := optind st + 1\<rparr>) = Inr st'"
          by simp
        from "1.IH"[OF inr nonopt _ this] True
        show ?thesis by simp
      next
        case False
        with eq inr nonopt show ?thesis by simp
      qed
    next
      case False
      then have "nargv st ! optind st \<noteq> []" by (auto simp: is_nonoption_def)
      with eq inr False show ?thesis
        by (cases "nargv st ! optind st") (auto simp: Let_def split: list.splits if_splits)
    qed
  qed
qed

lemma parse_long_options_optind:
  "parse_long_options n st s = (c, st') \<Longrightarrow> optind st < optind st'"
  by (auto simp: parse_long_options_def Let_def split: prod.splits option.splits if_splits)

lemma getopt_option_Some:
  "getopt_option n st = (Some c, st') \<Longrightarrow>
     place st \<noteq> [] \<and>
     ((place st' = [] \<and> optind st < optind st') \<or>
      (place st' \<noteq> [] \<and> optind st' = optind st \<and> length (place st') < length (place st)))"
proof (cases "place st")
  case Nil
  assume "getopt_option n st = (Some c, st')"
  with Nil show ?thesis by (simp add: getopt_option_def)
next
  case (Cons a cs)
  assume g: "getopt_option n st = (Some c, st')"
  show ?thesis
  proof (cases "a = CHR ''-''")
    case True
    obtain oc st2 where p: "parse_long_options n st cs = (oc, st2)" by force
    from g Cons True p have "st' = st2\<lparr>place := []\<rparr>" by (simp add: getopt_option_def)
    with parse_long_options_optind[OF p] Cons show ?thesis by simp
  next
    case False
    with g Cons show ?thesis
      by (cases "cs = []") (auto simp: getopt_option_def split: if_splits)
  qed
qed

lemma getopt_long_cases:
  assumes "getopt_long pm n st = (Some c, st')"
  obtains (fresh) st1 where "place st = []" "optind st \<le> optind st1" "optind st1 < n"
      "place st1 \<noteq> []" "getopt_option n st1 = (Some c, st')"
    | (inside) "place st \<noteq> []" "getopt_option n (st\<lparr>optarg := None\<rparr>) = (Some c, st')"
proof (cases "place st = []")
  case True
  with assms obtain st1 where s: "getopt_start pm n (st\<lparr>optarg := None\<rparr>) = Inr st1"
    and o: "getopt_option n st1 = (Some c, st')"
    by (auto simp: getopt_long_def Let_def split: sum.splits)
  from getopt_start_Inr[OF s] True o show ?thesis by (auto intro: fresh)
next
  case False
  with assms have "getopt_option n (st\<lparr>optarg := None\<rparr>) = (Some c, st')"
    by (auto simp: getopt_long_def Let_def)
  with False show ?thesis by (rule inside)
qed

lemma getopt_long_rank:
  assumes "getopt_long pm n st = (Some c, st')"
  shows "getopt_rank n st' < getopt_rank n st \<or>
         (getopt_rank n st' = getopt_rank n st \<and> length (place st') < length (place st))"
  using assms
proof (cases rule: getopt_long_cases)
  case (fresh st1)
  from getopt_option_Some[OF fresh(5)] fresh(1-4) show ?thesis
    by (auto simp: getopt_rank_def)
next
  case inside
  from getopt_option_Some[OF inside(2)] inside(1) show ?thesis
    by (auto simp: getopt_rank_def)
qed

lemma getopt_long_rank_end:
  assumes "getopt_long pm n st = (Some c, st')"
  shows "getopt_rank n (st'\<lparr>optind := n\<rparr>) < getopt_rank n st \<or>
         (getopt_rank n (st'\<lparr>optind := n\<rparr>) = getopt_rank n st \<and>
          length (place st') < length (place st))"
  using assms
proof (cases rule: getopt_long_cases)
  case (fresh st1)
  from getopt_option_Some[OF fresh(5)] fresh(1-4) show ?thesis
    by (auto simp: getopt_rank_def)
next
  case inside
  from getopt_option_Some[OF inside(2)] inside(1) show ?thesis
    by (auto simp: getopt_rank_def)
qed

section \<open>Building the request\<close>

text \<open>\<^verbatim>\<open>usage\<close> prints the help text, to standard output when the status is zero, and exits.\<close>

definition usage_text :: "string \<Rightarrow> string" where
  "usage_text dsh =
     ''MagiskSU'' @ newline @ newline
     @ ''Usage: su [options] [-] [user [argument...]]'' @ newline @ newline
     @ ''Options:'' @ newline
     @ ''  -c, --command COMMAND         pass COMMAND to the invoked shell'' @ newline
     @ ''  -h, --help                    display this help message and exit'' @ newline
     @ ''  -, -l, --login                pretend the shell to be a login shell'' @ newline
     @ ''  -m, -p,'' @ newline
     @ ''  --preserve-environment        preserve the entire environment'' @ newline
     @ ''  -s, --shell SHELL             use SHELL instead of the default '' @ dsh @ newline
     @ ''  -v, --version                 display version number and exit'' @ newline
     @ ''  -V                            display version code and exit'' @ newline
     @ ''  -mm, -M,'' @ newline
     @ ''  --mount-master                force run in the global mount namespace''
     @ newline @ newline"

definition usage :: "world \<Rightarrow> int \<Rightarrow> event list \<times> outcome" where
  "usage w status =
     ([E_fprintf (if status = EXIT_SUCCESS then Stdout else Stderr)
         (usage_text (DEFAULT_SHELL w))],
      Exit status)"

text \<open>
  The first loop of \<^verbatim>\<open>su_client_main\<close>: every element of \<^verbatim>\<open>argv\<close>, the program name
  included, that is \<^verbatim>\<open>-cn\<close> or \<^verbatim>\<open>-mm\<close> is overwritten in place.
\<close>

primrec replace_legacy :: "string list \<Rightarrow> string list" where
  "replace_legacy [] = []"
| "replace_legacy (a # as) =
     (if a = ''-cn'' then ''-z'' else if a = ''-mm'' then ''-M'' else a) # replace_legacy as"

text \<open>
  The body of the loop for \<^verbatim>\<open>-c\<close>: one element is appended to the command, after a
  space when the command is not empty.
\<close>

definition append_arg :: "string \<Rightarrow> string \<Rightarrow> string" where
  "append_arg cmd a = (if cmd \<noteq> [] then cmd @ '' '' else cmd) @ a"

text \<open>
  The members of a fresh \<^verbatim>\<open>su_request\<close>. The header that declares the structure is not
  among the sources: the uid and the shell start at its constants, the flags are off
  and the command is empty.
\<close>

definition su_request_init :: "world \<Rightarrow> su_request" where
  "su_request_init w =
     \<lparr>uid = default_uid w, login = False, keepenv = False, mount_master = False,
      shell = DEFAULT_SHELL w, command = []\<rparr>"

text \<open>
  The \<^verbatim>\<open>while\<close> loop over \<^verbatim>\<open>getopt_long\<close> with its \<^verbatim>\<open>switch\<close>: \<open>Inl\<close> when a case
  leaves the process, \<open>Inr\<close> with the parser state and the request when \<^verbatim>\<open>getopt_long\<close>
  returns \<open>-1\<close>. The option \<^verbatim>\<open>u\<close> is in the option string and has no case of its own: it
  falls to \<^verbatim>\<open>default\<close>, like \<open>?\<close>. In the case for \<open>s\<close> the shell is assigned from
  \<^verbatim>\<open>optarg\<close>, which is not null there (\<open>getopt_long_s_optarg\<close> below): the branch for
  \<open>None\<close> is never taken.
\<close>

function getopt_loop ::
  "world \<Rightarrow> nat \<Rightarrow> getopt_state \<Rightarrow> su_request \<Rightarrow>
   (event list \<times> outcome) + (getopt_state \<times> su_request)" where
  "getopt_loop w argc st su_req =
     (case getopt_long (\<not> posixly_correct w) argc st of
        (None, st') \<Rightarrow> Inr (st', su_req)
      | (Some c, st') \<Rightarrow>
          if c = CHR ''c'' then
            getopt_loop w argc (st'\<lparr>optind := argc\<rparr>)
              (su_req\<lparr>command :=
                 foldl append_arg (command su_req)
                   (drop (optind st' - 1) (take argc (nargv st')))\<rparr>)
          else if c = CHR ''h'' then Inl (usage w EXIT_SUCCESS)
          else if c = CHR ''l'' then getopt_loop w argc st' (su_req\<lparr>login := True\<rparr>)
          else if c = CHR ''m'' \<or> c = CHR ''p'' then
            getopt_loop w argc st' (su_req\<lparr>keepenv := True\<rparr>)
          else if c = CHR ''s'' then
            getopt_loop w argc st'
              (su_req\<lparr>shell := (case optarg st' of Some a \<Rightarrow> a | None \<Rightarrow> [])\<rparr>)
          else if c = CHR ''V'' then Inl ([E_printf_d (MAGISK_VER_CODE w)], Exit EXIT_SUCCESS)
          else if c = CHR ''v'' then
            Inl ([E_fprintf Stdout (MAGISK_VERSION w @ '':MAGISKSU'' @ newline)],
                 Exit EXIT_SUCCESS)
          else if c = CHR ''z'' then getopt_loop w argc st' su_req
          else if c = CHR ''M'' then getopt_loop w argc st' (su_req\<lparr>mount_master := True\<rparr>)
          else (case usage w 2 of (es, out) \<Rightarrow> Inl (E_fprintf Stderr newline # es, out)))"
  by pat_completeness auto
termination
proof (relation "measures [\<lambda>(w, argc, st, r). getopt_rank argc st,
                           \<lambda>(w, argc, st, r). length (place st)]", goal_cases)
  case 1
  show ?case by simp
next
  case (2 w argc st su_req x y c)
  then have "getopt_long (\<not> posixly_correct w) argc st = (Some c, y)" by simp
  from getopt_long_rank_end[OF this] show ?case by auto
next
  case (3 w argc st su_req x y c)
  then have "getopt_long (\<not> posixly_correct w) argc st = (Some c, y)" by simp
  from getopt_long_rank[OF this] show ?case by auto
next
  case (4 w argc st su_req x y c)
  then have "getopt_long (\<not> posixly_correct w) argc st = (Some c, y)" by simp
  from getopt_long_rank[OF this] show ?case by auto
next
  case (5 w argc st su_req x y c)
  then have "getopt_long (\<not> posixly_correct w) argc st = (Some c, y)" by simp
  from getopt_long_rank[OF this] show ?case by auto
next
  case (6 w argc st su_req x y c)
  then have "getopt_long (\<not> posixly_correct w) argc st = (Some c, y)" by simp
  from getopt_long_rank[OF this] show ?case by auto
next
  case (7 w argc st su_req x y c)
  then have "getopt_long (\<not> posixly_correct w) argc st = (Some c, y)" by simp
  from getopt_long_rank[OF this] show ?case by auto
qed

declare getopt_loop.simps [simp del]

text \<open>The parser before its first call: \<^verbatim>\<open>optind\<close> is 1, nothing is being read.\<close>

definition getopt_init :: "string list \<Rightarrow> getopt_state" where
  "getopt_init v =
     \<lparr>nargv = v, optind = 1, optarg = None, place = [],
      nonopt_start = None, nonopt_end = None\<rparr>"

text \<open>
  The first half of \<^verbatim>\<open>su_client_main\<close>: the rewriting of the legacy spellings, the
  option loop, the lone \<open>-\<close> and the user. \<open>Inl\<close> when the process has left (help, version
  or a usage error), \<open>Inr\<close> with the request to send.
\<close>

definition parse_args :: "world \<Rightarrow> string list \<Rightarrow> (event list \<times> outcome) + su_request" where
  "parse_args w argv =
     (let argc = length argv
      in case getopt_loop w argc (getopt_init (replace_legacy argv)) (su_request_init w) of
           Inl r \<Rightarrow> Inl r
         | Inr (st, su_req) \<Rightarrow>
             let (i, su_req) =
                   (if optind st < argc \<and> nargv st ! optind st = ''-''
                    then (optind st + 1, su_req\<lparr>login := True\<rparr>)
                    else (optind st, su_req));
                 su_req =
                   (if i < argc
                    then su_req\<lparr>uid := (case getpwnam w (nargv st ! i) of
                                          Some u \<Rightarrow> u
                                        | None \<Rightarrow> parse_int w (nargv st ! i))\<rparr>
                    else su_req)
             in Inr su_req)"

definition su_client_main :: "world \<Rightarrow> string list \<Rightarrow> event list \<times> outcome" where
  "su_client_main w argv =
     (case parse_args w argv of
        Inl r \<Rightarrow> r
      | Inr su_req \<Rightarrow> su_client_session w su_req)"

section \<open>Reading a trace\<close>

text \<open>What the option loop and \<^verbatim>\<open>usage\<close> do: they print.\<close>

fun is_print :: "event \<Rightarrow> bool" where
  "is_print (E_fprintf s t) = True"
| "is_print (E_printf_d n) = True"
| "is_print _ = False"

text \<open>A descriptor handed to the daemon, or one received from it.\<close>

fun is_fd_transfer :: "event \<Rightarrow> bool" where
  "is_fd_transfer (E_send_fd f d) = True"
| "is_fd_transfer (E_recv_fd f) = True"
| "is_fd_transfer _ = False"

text \<open>What starts the resize watcher or a pump, and what the pumps do.\<close>

fun is_pump :: "event \<Rightarrow> bool" where
  "is_pump (E_watch_sigwinch_async a b) = True"
| "is_pump E_set_stdin_raw = True"
| "is_pump (E_pump_stdin_async f) = True"
| "is_pump (E_pump_stdout_start f) = True"
| "is_pump (E_pump_stdout_eos f) = True"
| "is_pump (E_pump_stdout_unblocked f) = True"
| "is_pump _ = False"

text \<open>
  The calls of the handshake: the request and the descriptor exchange. (The read of the
  acknowledgment is recognised by its place: the last call of \<open>send_request\<close>.)
\<close>

fun is_handshake :: "event \<Rightarrow> bool" where
  "is_handshake E_connect_daemon = True"
| "is_handshake (E_xwrite_req f r) = True"
| "is_handshake (E_write_int f n) = True"
| "is_handshake (E_xwrite_bytes f s) = True"
| "is_handshake (E_isatty f) = True"
| "is_handshake (E_send_fd f d) = True"
| "is_handshake (E_recv_fd f) = True"
| "is_handshake _ = False"

text \<open>A call of \<^verbatim>\<open>close\<close>, and a line printed to standard error.\<close>

fun is_close :: "event \<Rightarrow> bool" where
  "is_close (E_close f) = True"
| "is_close _ = False"


text \<open>
  The calls that change the disposition of a signal or the configuration of the
  terminal. The resize watcher is counted among them.
\<close>

fun changes_signals_or_terminal :: "event \<Rightarrow> bool" where
  "changes_signals_or_terminal (E_sigaction s h) = True"
| "changes_signals_or_terminal (E_watch_sigwinch_async a b) = True"
| "changes_signals_or_terminal E_set_stdin_raw = True"
| "changes_signals_or_terminal E_restore_stdin = True"
| "changes_signals_or_terminal _ = False"

text \<open>The members of \<^verbatim>\<open>quit_signals\<close> as a set.\<close>

definition quit_signal_set :: "nat set" where
  "quit_signal_set = {SIGALRM, SIGABRT, SIGHUP, SIGPIPE, SIGQUIT, SIGTERM, SIGINT}"



text \<open>
  Three concrete worlds: every stream redirected to a file and a daemon that accepts; the
  same with a daemon that refuses; the same with every stream on a terminal.
\<close>

definition w_files :: world where
  "w_files =
     \<lparr>getpwnam = (\<lambda>s. if s = ''shell'' then Some 2000 else None),
      parse_int = (\<lambda>s. - 1), posixly_correct = False,
      DEFAULT_SHELL = ''/system/bin/sh'', default_uid = 0,
      MAGISK_VER_CODE = 25200, MAGISK_VERSION = ''25.2'',
      daemon_fd = 3, ack_reply = Some 0,
      comm_error_text = ''su: communication error'', comm_error_code = 0,
      stdin_tty = False, stdout_tty = False, stderr_tty = False,
      ptmx_fd = 4, pump_signal = None, code_reply = Some 0\<rparr>"

definition w_denied :: world where
  "w_denied = w_files\<lparr>ack_reply := Some 1\<rparr>"

definition w_tty :: world where
  "w_tty = w_files\<lparr>stdin_tty := True, stdout_tty := True, stderr_tty := True\<rparr>"

text \<open>Standard input from a pipe, standard output on a terminal.\<close>

definition w_out_tty :: world where
  "w_out_tty = w_files\<lparr>stdout_tty := True\<rparr>"


definition w_tty_signal :: world where
  "w_tty_signal = w_tty\<lparr>pump_signal := Some SIGINT\<rparr>"

text \<open>A process that has changed nothing yet: every disposition is the default.\<close>

definition p_initial :: proc where
  "p_initial = \<lparr>disposition = (\<lambda>s. SIG_DFL), tty_raw = False, closed = [], killed_by = None\<rparr>"

text \<open>
  A process in the middle of a terminal session: the handler is installed for every
  signal of \<^verbatim>\<open>quit_signals\<close> and the terminal is in raw mode.
\<close>

definition p_running :: proc where
  "p_running =
     exec_events (setup_sighandlers Sighandler @ [E_set_stdin_raw]) p_initial"

text \<open>
  Whether the handler runs during the run: some stream is a terminal (so the handler is
  installed and the pumps run) and a signal of \<^verbatim>\<open>quit_signals\<close> arrives while the output
  pump blocks. \<open>pump_return\<close> is the way the output pump returns in the run.
\<close>

definition signal_caught :: "world \<Rightarrow> bool" where
  "signal_caught w =
     ((stdin_tty w \<or> stdout_tty w \<or> stderr_tty w) \<and>
      (case pump_signal w of None \<Rightarrow> False | Some sig \<Rightarrow> is_quit_signal sig))"

definition pump_return :: "world \<Rightarrow> event" where
  "pump_return w =
     (if signal_caught w then E_pump_stdout_unblocked (ptmx_fd w)
      else E_pump_stdout_eos (ptmx_fd w))"

text \<open>
  What follows the call of the final \<^verbatim>\<open>read_int\<close> in the trace: the close of the channel
  when the read succeeds, the message of the communication error when it fails.
\<close>

definition exit_tail :: "world \<Rightarrow> event list" where
  "exit_tail w =
     (case code_reply w of
        Some c \<Rightarrow> [E_close (daemon_fd w)]
      | None \<Rightarrow> [E_fprintf Stderr (comm_error_text w)])"

section \<open>The two ways \<^verbatim>\<open>su_client_main\<close> can go\<close>

lemma getopt_loop_Inl:
  "getopt_loop w argc st su_req = Inl (es, out) \<Longrightarrow>
     list_all is_print es \<and> (\<exists>k. out = Exit k)"
proof (induction w argc st su_req rule: getopt_loop.induct)
  case (1 w argc st su_req)
  obtain r st' where g: "getopt_long (\<not> posixly_correct w) argc st = (r, st')" by force
  show ?case
  proof (cases r)
    case None
    with g "1.prems" show ?thesis by (simp add: getopt_loop.simps[of w argc st su_req])
  next
    case (Some c)
    note IH = "1.IH"[OF g[symmetric] Some]
    note eq = "1.prems"[unfolded getopt_loop.simps[of w argc st su_req] g Some, simplified]
    consider (c) "c = CHR ''c''" | (l) "c = CHR ''l''" | (mp) "c = CHR ''m'' \<or> c = CHR ''p''"
      | (s) "c = CHR ''s''" | (z) "c = CHR ''z''" | (M) "c = CHR ''M''"
      | (other) "c \<notin> {CHR ''c'', CHR ''l'', CHR ''m'', CHR ''p'', CHR ''s'', CHR ''z'', CHR ''M''}"
      by auto
    then show ?thesis
    proof cases
      case c
      with eq IH(1) show ?thesis by simp
    next
      case l
      with eq IH(2) show ?thesis by simp
    next
      case mp
      with eq IH(3) show ?thesis by auto
    next
      case s
      with eq IH(4) show ?thesis by simp
    next
      case z
      with eq IH(5) show ?thesis by simp
    next
      case M
      with eq IH(6) show ?thesis by simp
    next
      case other
      with eq show ?thesis by (auto simp: usage_def split: if_splits)
    qed
  qed
qed

lemma parse_args_Inl:
  "parse_args w argv = Inl (es, out) \<Longrightarrow> list_all is_print es \<and> (\<exists>k. out = Exit k)"
  by (auto simp: parse_args_def Let_def split: sum.splits prod.splits dest: getopt_loop_Inl)

text \<open>
  Either the process leaves while it reads its arguments, having done nothing but print,
  or a request is built and the exchange with the daemon runs.
\<close>

lemma su_client_main_cases:
  obtains (left) es k where "parse_args w argv = Inl (es, Exit k)" "list_all is_print es"
      "su_client_main w argv = (es, Exit k)"
    | (sent) su_req where "parse_args w argv = Inr su_req"
      "su_client_main w argv = su_client_session w su_req"
proof (cases "parse_args w argv")
  case (Inl r)
  obtain es out where r: "r = (es, out)" by force
  from parse_args_Inl[of w argv es out] Inl r
  obtain k where "list_all is_print es" "out = Exit k"
    by auto
  with Inl r show ?thesis by (auto intro: left simp: su_client_main_def)
next
  case (Inr su_req)
  then show ?thesis by (auto intro: sent simp: su_client_main_def)
qed

lemma prints_only:
  "list_all is_print es \<Longrightarrow> E_connect_daemon \<notin> set es \<and> filter is_fd_transfer es = []"
  by (induction es) (auto elim: is_print.elims)

text \<open>The four ways the exchange with the daemon can go.\<close>

lemma su_client_session_cases:
  obtains (lost_ack) "ack_reply w = None"
      "su_client_session w r =
         (send_request w r @ [E_fprintf Stderr (comm_error_text w)], Exit (comm_error_status w))"
    | (denied) v where "ack_reply w = Some v" "v \<noteq> 0"
      "su_client_session w r =
         (send_request w r @ [E_fprintf Stderr (strerror_EACCES @ newline)], Return EACCES)"
    | (lost_code) "ack_reply w = Some 0" "code_reply w = None"
      "su_client_session w r =
         (send_request w r @ send_fds w (atty_mask w) @ run_pumps w (atty_mask w)
          @ [E_read_int (daemon_fd w), E_fprintf Stderr (comm_error_text w)],
          Exit (comm_error_status w))"
    | (completed) c where "ack_reply w = Some 0" "code_reply w = Some c"
      "su_client_session w r =
         (send_request w r @ send_fds w (atty_mask w) @ run_pumps w (atty_mask w)
          @ [E_read_int (daemon_fd w), E_close (daemon_fd w)],
          Return c)"
proof (cases "ack_reply w")
  case None
  then show ?thesis by (intro lost_ack) (simp_all add: su_client_session_def read_int_def)
next
  case (Some v)
  show ?thesis
  proof (cases "v = 0")
    case False
    with Some show ?thesis by (intro denied[of v]) (simp_all add: su_client_session_def read_int_def)
  next
    case True
    note z = True
    show ?thesis
    proof (cases "code_reply w")
      case None
      with Some z show ?thesis
        by (intro lost_code) (simp_all add: su_client_session_def read_int_def)
    next
      case (Some c)
      with \<open>ack_reply w = Some v\<close> z show ?thesis
        by (intro completed[of c]) (simp_all add: su_client_session_def read_int_def)
    qed
  qed
qed

lemma sigaction_all_no_transfer: "filter is_fd_transfer (sigaction_all h ss) = []"
  by (induction ss) auto

lemma sighandler_no_transfer: "filter is_fd_transfer (sighandler sig) = []"
  by (simp add: sighandler_def sigaction_all_no_transfer)

lemma run_pumps_no_transfer: "filter is_fd_transfer (run_pumps w m) = []"
  by (simp add: run_pumps_def setup_sighandlers_def sigaction_all_no_transfer
      pump_stdin_async_def pump_stdout_blocking_def sighandler_no_transfer
      split: option.splits)

lemma send_request_no_transfer: "filter is_fd_transfer (send_request w r) = []"
  by (simp add: send_request_def write_string_def)

lemma connect_sent:
  assumes "E_connect_daemon \<in> set (fst (su_client_main w argv))"
  obtains su_req where "parse_args w argv = Inr su_req"
    "su_client_main w argv = su_client_session w su_req"
proof (cases rule: su_client_main_cases[of w argv])
  case (left es k)
  with prints_only[of es] assms show ?thesis by simp
next
  case (sent su_req)
  then show ?thesis by (rule that)
qed

lemma atty_mask_zero:
  "atty_mask w = 0 \<longleftrightarrow> \<not> (stdin_tty w \<or> stdout_tty w \<or> stderr_tty w)"
  by (cases "stdin_tty w"; cases "stdout_tty w"; cases "stderr_tty w")
     (simp_all add: atty_mask_def ATTY_IN_def ATTY_OUT_def ATTY_ERR_def)

lemma takeWhile_not_pump_prefix:
  "filter is_pump xs = [] \<Longrightarrow> is_pump y \<Longrightarrow> takeWhile (\<lambda>e. \<not> is_pump e) (xs @ y # ys) = xs"
  by (induction xs) (auto split: if_splits)

lemma dropWhile_not_pump_prefix:
  "filter is_pump xs = [] \<Longrightarrow> is_pump y \<Longrightarrow> dropWhile (\<lambda>e. \<not> is_pump e) (xs @ y # ys) = y # ys"
  by (induction xs) (auto split: if_splits)

lemma sigaction_all_no_pump: "filter is_pump (sigaction_all h ss) = []"
  by (induction ss) auto

lemma handshake_no_pump:
  "filter is_pump (send_request w r @ send_fds w m @ setup_sighandlers h) = []"
  by (simp add: send_request_def write_string_def send_fds_def setup_sighandlers_def
      sigaction_all_no_pump)

lemma dropWhile_neq_prefix:
  "y \<notin> set xs \<Longrightarrow> dropWhile (\<lambda>e. e \<noteq> y) (xs @ y # ys) = y # ys"
  by (induction xs) auto

lemma takeWhile_neq_prefix:
  "y \<notin> set xs \<Longrightarrow> takeWhile (\<lambda>e. e \<noteq> y) (xs @ y # ys) = xs"
  by (induction xs) auto

lemma sigaction_all_events: "e \<in> set (sigaction_all h ss) \<Longrightarrow> \<exists>s. e = E_sigaction s h"
  by (induction ss) (auto split: if_splits)

lemma sigaction_all_no_read: "filter (\<lambda>e. e = E_read_int f) (sigaction_all h ss) = []"
  by (induction ss) auto





lemma exec_sighandler:
  "exec_events (sighandler sig) p =
     p\<lparr>disposition := (\<lambda>s. if s \<in> quit_signal_set then SIG_DFL else disposition p s),
       tty_raw := False,
       closed := closed p @ [STDIN_FILENO, STDOUT_FILENO, STDERR_FILENO]\<rparr>"
  by (auto simp: exec_events_def sighandler_def quit_signals_def quit_signal_set_def fun_eq_iff
      SIGALRM_def SIGABRT_def SIGHUP_def SIGPIPE_def SIGQUIT_def SIGTERM_def SIGINT_def)

lemma prints_change_nothing: "list_all is_print es \<Longrightarrow> filter changes_signals_or_terminal es = []"
  by (induction es) (auto elim: is_print.elims)

lemma exec_events_unchanged:
  "filter changes_signals_or_terminal es = [] \<Longrightarrow>
     disposition (exec_events es p) = disposition p \<and> tty_raw (exec_events es p) = tty_raw p"
proof (induction es arbitrary: p)
  case Nil
  then show ?case by (simp add: exec_events_def)
next
  case (Cons e es)
  from Cons.prems have e: "\<not> changes_signals_or_terminal e"
    and es: "filter changes_signals_or_terminal es = []"
    by (auto split: if_splits)
  from e have "disposition (exec_event e p) = disposition p \<and> tty_raw (exec_event e p) = tty_raw p"
    by (cases e) simp_all
  with Cons.IH[OF es, of "exec_event e p"] show ?case by (simp add: exec_events_def)
qed

lemma session_accepted:
  "ack_reply w = Some 0 \<Longrightarrow>
     fst (su_client_session w r) =
       send_request w r @ send_fds w (atty_mask w) @ run_pumps w (atty_mask w)
       @ E_read_int (daemon_fd w) # exit_tail w"
  by (cases rule: su_client_session_cases[of w r]) (simp_all add: exit_tail_def)



lemma session_not_accepted_changes_nothing:
  "ack_reply w \<noteq> Some 0 \<Longrightarrow>
     filter changes_signals_or_terminal (fst (su_client_session w r)) = []"
  by (cases rule: su_client_session_cases[of w r])
     (simp_all add: send_request_def write_string_def)

lemma pump_stdout_blocking_cases:
  "pump_stdout_blocking w f =
     (if (case pump_signal w of None \<Rightarrow> False | Some sig \<Rightarrow> is_quit_signal sig)
      then E_pump_stdout_start f # sighandler (the (pump_signal w)) @ [E_pump_stdout_unblocked f]
      else [E_pump_stdout_start f, E_pump_stdout_eos f])"
  by (simp add: pump_stdout_blocking_def split: option.splits)

lemma sighandler_events:
  "sighandler sig =
     [E_restore_stdin,
      E_close STDIN_FILENO, E_close STDOUT_FILENO, E_close STDERR_FILENO,
      E_sigaction SIGALRM SIG_DFL, E_sigaction SIGABRT SIG_DFL, E_sigaction SIGHUP SIG_DFL,
      E_sigaction SIGPIPE SIG_DFL, E_sigaction SIGQUIT SIG_DFL, E_sigaction SIGTERM SIG_DFL,
      E_sigaction SIGINT SIG_DFL]"
  by (simp add: sighandler_def quit_signals_def
      SIGALRM_def SIGABRT_def SIGHUP_def SIGPIPE_def SIGQUIT_def SIGTERM_def SIGINT_def)

lemma setup_sighandlers_events:
  "setup_sighandlers h =
     [E_sigaction SIGALRM h, E_sigaction SIGABRT h, E_sigaction SIGHUP h,
      E_sigaction SIGPIPE h, E_sigaction SIGQUIT h, E_sigaction SIGTERM h,
      E_sigaction SIGINT h]"
  by (simp add: setup_sighandlers_def quit_signals_def
      SIGALRM_def SIGABRT_def SIGHUP_def SIGPIPE_def SIGQUIT_def SIGTERM_def SIGINT_def)

lemma run_pumps_tty:
  "stdin_tty w \<or> stdout_tty w \<or> stderr_tty w \<Longrightarrow>
     run_pumps w (atty_mask w) =
       setup_sighandlers Sighandler
       @ [E_watch_sigwinch_async STDOUT_FILENO (ptmx_fd w), E_set_stdin_raw,
          E_pump_stdin_async (ptmx_fd w), E_pump_stdout_start (ptmx_fd w)]
       @ (if signal_caught w then sighandler (the (pump_signal w)) else [])
       @ [pump_return w]"
  by (simp add: run_pumps_def atty_mask_zero pump_stdin_async_def pump_stdout_blocking_cases
      signal_caught_def pump_return_def)

lemma run_pumps_no_tty:
  "\<not> (stdin_tty w \<or> stdout_tty w \<or> stderr_tty w) \<Longrightarrow> run_pumps w (atty_mask w) = []"
  using atty_mask_zero[of w] by (simp add: run_pumps_def)




lemma handshake_changes_nothing:
  "filter changes_signals_or_terminal (send_request w r @ send_fds w m) = []"
  by (simp add: send_request_def write_string_def send_fds_def)

lemma exit_tail_changes_nothing:
  "filter changes_signals_or_terminal (E_read_int f # exit_tail w) = []"
  by (simp add: exit_tail_def split: option.splits)

lemma no_tty_changes_nothing:
  assumes "\<not> (stdin_tty w \<or> stdout_tty w \<or> stderr_tty w)"
  shows "filter changes_signals_or_terminal (fst (su_client_main w argv)) = []"
proof (cases rule: su_client_main_cases[of w argv])
  case (left es k)
  with prints_change_nothing[of es] show ?thesis by simp
next
  case (sent su_req)
  show ?thesis
  proof (cases "ack_reply w = Some 0")
    case True
    from handshake_changes_nothing[of w su_req "atty_mask w"]
      exit_tail_changes_nothing[of "daemon_fd w" w]
    show ?thesis
      unfolding sent(2) session_accepted[OF True] run_pumps_no_tty[OF assms]
      by (simp del: filter.simps)
  next
    case False
    then show ?thesis unfolding sent(2) by (rule session_not_accepted_changes_nothing)
  qed
qed




lemma send_fds_explicit:
  "send_fds w (atty_mask w) =
          [E_isatty STDIN_FILENO, E_isatty STDOUT_FILENO, E_isatty STDERR_FILENO]
          @ [E_send_fd (daemon_fd w) (if stdin_tty w then - 1 else STDIN_FILENO),
             E_send_fd (daemon_fd w) (if stdout_tty w then - 1 else STDOUT_FILENO),
             E_send_fd (daemon_fd w) (if stderr_tty w then - 1 else STDERR_FILENO),
             E_write_int (daemon_fd w)
               (if stdin_tty w \<or> stdout_tty w \<or> stderr_tty w then 1 else 0)]
          @ (if stdin_tty w \<or> stdout_tty w \<or> stderr_tty w
             then [E_recv_fd (daemon_fd w)] else [])"
  by (cases "stdin_tty w"; cases "stdout_tty w"; cases "stderr_tty w")
     (simp_all add: send_fds_def atty_mask_def ATTY_IN_def ATTY_OUT_def ATTY_ERR_def)

subsection \<open>The option loop on the options of the claims\<close>

text \<open>When the parser returns \<open>s\<close>, \<^verbatim>\<open>optarg\<close> is set.\<close>

lemma long_match_mem:
  "long_match np los (m, e, s) = (Some lo, e', s') \<Longrightarrow> lo \<in> set los \<or> m = Some lo"
proof (induction los arbitrary: m e s)
  case Nil
  then show ?case by simp
next
  case (Cons x xs)
  then show ?case
    by (fastforce split: if_splits option.splits)
qed

lemma long_opts_shell:
  "lo \<in> set long_opts \<Longrightarrow> val lo = CHR ''s'' \<Longrightarrow> has_arg lo = required_argument"
  by (auto simp: long_opts_def)

lemma parse_long_options_s:
  assumes "parse_long_options n st cur = (CHR ''s'', st')"
  shows "optarg st' \<noteq> None"
proof -
  obtain m ex sec where lm:
    "long_match (takeWhile (\<lambda>c. c \<noteq> CHR ''='') cur) long_opts (None, False, False) = (m, ex, sec)"
    by (metis prod_cases3)
  show ?thesis
  proof (cases m)
    case None
    with assms lm show ?thesis
      by (auto simp: parse_long_options_def Let_def BADCH_def split: if_splits)
  next
    case (Some lo)
    with lm long_match_mem[of _ long_opts None False False lo ex sec]
    have mem: "lo \<in> set long_opts" by auto
    from assms lm Some long_opts_shell[OF mem] show ?thesis
      by (auto simp: parse_long_options_def Let_def BADCH_def BADARG_def
          split: if_splits option.splits)
  qed
qed

lemma short_kind_s: "short_kind (CHR ''s'') = required_argument"
  by (simp add: short_kind_def optstring_def)

lemma getopt_option_s:
  assumes "getopt_option n st = (Some (CHR ''s''), st')"
  shows "optarg st' \<noteq> None"
proof (cases "place st")
  case Nil
  with assms show ?thesis by (simp add: getopt_option_def)
next
  case (Cons a cs)
  show ?thesis
  proof (cases "a = CHR ''-''")
    case True
    obtain oc st2 where p: "parse_long_options n st cs = (oc, st2)" by force
    with assms Cons True have "oc = CHR ''s''" "st' = st2\<lparr>place := []\<rparr>"
      by (auto simp: getopt_option_def)
    with p parse_long_options_s[of n st cs st2] show ?thesis by simp
  next
    case False
    with assms Cons show ?thesis
      by (auto simp: getopt_option_def short_kind_s BADCH_def BADARG_def split: if_splits)
  qed
qed

lemma getopt_long_s_optarg:
  assumes "getopt_long pm n st = (Some (CHR ''s''), st')"
  shows "optarg st' \<noteq> None"
  using assms
proof (cases rule: getopt_long_cases)
  case (fresh st1)
  then show ?thesis by (auto dest: getopt_option_s)
next
  case inside
  then show ?thesis by (auto dest: getopt_option_s)
qed




lemma getopt_long_at_end:
  "place st = [] \<Longrightarrow> n \<le> optind st \<Longrightarrow> \<exists>st'. getopt_long pm n st = (None, st')"
  by (simp add: getopt_long_def getopt_start.simps Let_def)






lemma getopt_long_finished:
  "getopt_long pm n \<lparr>nargv = v, optind = n, optarg = oa, place = [],
                      nonopt_start = None, nonopt_end = None\<rparr> =
     (None, \<lparr>nargv = v, optind = n, optarg = None, place = [],
             nonopt_start = None, nonopt_end = None\<rparr>)"
  by (simp add: getopt_long_def getopt_start.simps permute_back_def Let_def)


lemma replace_legacy_map_mm:
  "replace_legacy (map (\<lambda>x. if x = ''-mm'' then ''-M'' else x) xs) = replace_legacy xs"
  by (induction xs) auto

lemma replace_legacy_map_cn:
  "replace_legacy (map (\<lambda>x. if x = ''-cn'' then ''-z'' else x) xs) = replace_legacy xs"
  by (induction xs) auto

lemma getopt_loop_M:
  assumes "getopt_long (\<not> posixly_correct w) argc st = (Some (CHR ''M''), st')"
  shows "getopt_loop w argc st su_req = getopt_loop w argc st' (su_req\<lparr>mount_master := True\<rparr>)"
  by (subst getopt_loop.simps) (simp add: assms)

lemma getopt_loop_z:
  assumes "getopt_long (\<not> posixly_correct w) argc st = (Some (CHR ''z''), st')"
  shows "getopt_loop w argc st su_req = getopt_loop w argc st' su_req"
  by (subst getopt_loop.simps) (simp add: assms)

lemma getopt_loop_finished:
  "getopt_loop w n \<lparr>nargv = v, optind = n, optarg = oa, place = [],
                     nonopt_start = None, nonopt_end = None\<rparr> su_req =
     Inr (\<lparr>nargv = v, optind = n, optarg = None, place = [],
            nonopt_start = None, nonopt_end = None\<rparr>, su_req)"
  by (subst getopt_loop.simps) (simp add: getopt_long_finished)

lemma getopt_long_dash_M:
  "getopt_long pm 2 (getopt_init [p, ''-M'']) =
     (Some (CHR ''M''), (getopt_init [p, ''-M''])\<lparr>place := [], optind := 2\<rparr>)"
  by (simp add: getopt_long_def getopt_init_def getopt_start.simps is_nonoption_def
      optstring_def getopt_option_def short_kind_def Let_def)

lemma getopt_long_mount_master:
  "getopt_long pm 2 (getopt_init [p, ''--mount-master'']) =
     (Some (CHR ''M''), (getopt_init [p, ''--mount-master''])\<lparr>place := [], optind := 2\<rparr>)"
  by (simp add: getopt_long_def getopt_init_def getopt_start.simps is_nonoption_def
      optstring_def getopt_option_def parse_long_options_def long_opts_def Let_def)

lemma getopt_long_dash_z_arg:
  "getopt_long pm 3 (getopt_init [p, ''-z'', a]) =
     (Some (CHR ''z''), (getopt_init [p, ''-z'', a])\<lparr>optarg := Some a, place := [], optind := 3\<rparr>)"
  by (simp add: getopt_long_def getopt_init_def getopt_start.simps is_nonoption_def
      optstring_def getopt_option_def short_kind_def Let_def)

lemma getopt_long_dash_z_alone:
  "getopt_long pm 2 (getopt_init [p, ''-z'']) =
     (Some BADARG, (getopt_init [p, ''-z''])\<lparr>place := [], optind := 2\<rparr>)"
  by (simp add: getopt_long_def getopt_init_def getopt_start.simps is_nonoption_def
      optstring_def getopt_option_def short_kind_def Let_def)

lemma parse_args_mount_master:
  assumes "opt = ''-mm'' \<or> opt = ''-M'' \<or> opt = ''--mount-master''"
  shows "parse_args w [prog, opt] = Inr ((su_request_init w)\<lparr>mount_master := True\<rparr>)"
proof -
  let ?p = "if prog = ''-cn'' then ''-z'' else if prog = ''-mm'' then ''-M'' else prog"
  let ?o = "if opt = ''-mm'' then ''-M'' else opt"
  have v: "replace_legacy [prog, opt] = [?p, ?o]" using assms by auto
  have g: "getopt_long (\<not> posixly_correct w) 2 (getopt_init [?p, ?o]) =
     (Some (CHR ''M''), (getopt_init [?p, ?o])\<lparr>place := [], optind := 2\<rparr>)"
    using assms getopt_long_dash_M[of "\<not> posixly_correct w" ?p]
      getopt_long_mount_master[of "\<not> posixly_correct w" ?p] by auto
  have l: "getopt_loop w 2 (getopt_init [?p, ?o]) (su_request_init w) =
     Inr (\<lparr>nargv = [?p, ?o], optind = 2, optarg = None, place = [],
            nonopt_start = None, nonopt_end = None\<rparr>,
          (su_request_init w)\<lparr>mount_master := True\<rparr>)"
    by (simp only: getopt_loop_M[OF g]) (simp add: getopt_init_def getopt_loop_finished)
  have n: "length [prog, opt] = 2" by simp
  show ?thesis
    unfolding parse_args_def v n Let_def l by simp
qed

lemma parse_args_context_arg:
  assumes "opt = ''-cn'' \<or> opt = ''-z''"
  shows "parse_args w [prog, opt, a] = Inr (su_request_init w)"
proof -
  let ?p = "if prog = ''-cn'' then ''-z'' else if prog = ''-mm'' then ''-M'' else prog"
  let ?a = "if a = ''-cn'' then ''-z'' else if a = ''-mm'' then ''-M'' else a"
  have v: "replace_legacy [prog, opt, a] = [?p, ''-z'', ?a]" using assms by auto
  note g = getopt_long_dash_z_arg[of "\<not> posixly_correct w" ?p ?a]
  have l: "getopt_loop w 3 (getopt_init [?p, ''-z'', ?a]) (su_request_init w) =
     Inr (\<lparr>nargv = [?p, ''-z'', ?a], optind = 3, optarg = None, place = [],
            nonopt_start = None, nonopt_end = None\<rparr>,
          su_request_init w)"
    by (simp only: getopt_loop_z[OF g]) (simp add: getopt_init_def getopt_loop_finished)
  have n: "length [prog, opt, a] = 3" by simp
  show ?thesis
    unfolding parse_args_def v n Let_def l by simp
qed

lemma parse_args_context_alone:
  assumes "opt = ''-cn'' \<or> opt = ''-z''"
  shows "parse_args w [prog, opt] =
           Inl (E_fprintf Stderr newline # fst (usage w 2), Exit 2)"
proof -
  let ?p = "if prog = ''-cn'' then ''-z'' else if prog = ''-mm'' then ''-M'' else prog"
  have v: "replace_legacy [prog, opt] = [?p, ''-z'']" using assms by auto
  note g = getopt_long_dash_z_alone[of "\<not> posixly_correct w" ?p]
  have l: "getopt_loop w 2 (getopt_init [?p, ''-z'']) (su_request_init w) =
     Inl (E_fprintf Stderr newline # fst (usage w 2), Exit 2)"
    by (subst getopt_loop.simps) (simp add: g BADARG_def usage_def)
  have n: "length [prog, opt] = 2" by simp
  show ?thesis
    unfolding parse_args_def v n Let_def l by simp
qed

lemma parse_args_no_arguments: "parse_args w [prog] = Inr (su_request_init w)"
proof -
  have n: "length [prog] = 1" by simp
  have l: "getopt_loop w 1 (getopt_init (replace_legacy [prog])) (su_request_init w) =
     Inr (\<lparr>nargv = replace_legacy [prog], optind = 1, optarg = None, place = [],
            nonopt_start = None, nonopt_end = None\<rparr>, su_request_init w)"
    unfolding getopt_init_def by (rule getopt_loop_finished)
  show ?thesis
    unfolding parse_args_def n Let_def l by simp
qed

lemma su_client_main_map_mm:
  "su_client_main w (map (\<lambda>x. if x = ''-mm'' then ''-M'' else x) argv) = su_client_main w argv"
  by (simp add: su_client_main_def parse_args_def replace_legacy_map_mm)

lemma su_client_main_map_cn:
  "su_client_main w (map (\<lambda>x. if x = ''-cn'' then ''-z'' else x) argv) = su_client_main w argv"
  by (simp add: su_client_main_def parse_args_def replace_legacy_map_cn)

subsection \<open>Elements skipped in front of the command option\<close>

















subsection \<open>The end of the loop after the command option\<close>






section \<open>The claims\<close>

text \<open>
  C1. No descriptor of the invoking process goes to the daemon before the handshake has
  ended with "accept". Unless the acknowledgment read is zero, the trace holds no
  descriptor transfer at all; when an acknowledgment that is not zero was read, the run
  ends by printing the text of \<^verbatim>\<open>EACCES\<close> to standard error and returning \<^verbatim>\<open>EACCES\<close>. In
  every run, if a descriptor is transferred then the acknowledgment was zero and it was
  read before the first transfer.
\<close>

theorem denied_sends_no_descriptor:
  "(ack_reply w \<noteq> Some 0 \<longrightarrow>
      filter is_fd_transfer (fst (su_client_main w argv)) = [] \<and>
      (E_connect_daemon \<in> set (fst (su_client_main w argv)) \<and> ack_reply w \<noteq> None \<longrightarrow>
         snd (su_client_main w argv) = Return EACCES \<and>
         last (fst (su_client_main w argv)) = E_fprintf Stderr (strerror_EACCES @ newline)))
   \<and> (filter is_fd_transfer (fst (su_client_main w argv)) \<noteq> [] \<longrightarrow>
        ack_reply w = Some 0 \<and>
        E_read_int (daemon_fd w)
          \<in> set (takeWhile (\<lambda>e. \<not> is_fd_transfer e) (fst (su_client_main w argv))))"
proof (cases rule: su_client_main_cases[of w argv])
  case (left es k)
  with prints_only[of es] show ?thesis by simp
next
  case (sent su_req)
  show ?thesis
  proof (cases rule: su_client_session_cases[of w su_req])
    case lost_ack
    with sent show ?thesis by (simp add: send_request_def write_string_def)
  next
    case (denied v)
    with sent show ?thesis by (simp add: send_request_def write_string_def)
  next
    case lost_code
    with sent show ?thesis by (simp add: send_request_def write_string_def send_fds_def)
  next
    case (completed c)
    with sent show ?thesis by (simp add: send_request_def write_string_def send_fds_def)
  qed
qed

theorem denied_sends_no_descriptor_witness:
  "ack_reply w_denied \<noteq> Some 0 \<and> ack_reply w_denied \<noteq> None \<and>
   E_connect_daemon \<in> set (fst (su_client_main w_denied [''su'', ''-c'', ''id''])) \<and>
   filter is_fd_transfer (fst (su_client_main w_denied [''su'', ''-c'', ''id''])) = [] \<and>
   snd (su_client_main w_denied [''su'', ''-c'', ''id'']) = Return 13 \<and>
   last (fst (su_client_main w_denied [''su'', ''-c'', ''id'']))
     = E_fprintf Stderr (''Permission denied'' @ [CHR 0x0A])"
proof -
  have a: "ack_reply w_denied \<noteq> Some 0 \<and> ack_reply w_denied \<noteq> None" by code_simp
  have b: "E_connect_daemon \<in> set (fst (su_client_main w_denied [''su'', ''-c'', ''id'']))"
    by code_simp
  from a b denied_sends_no_descriptor[of w_denied "[''su'', ''-c'', ''id'']"]
  show ?thesis by (simp add: EACCES_def strerror_EACCES_def newline_def)
qed




text \<open>
  C3. After a zero acknowledgment the client asks of each of the three streams whether it
  is a terminal and then makes exactly three descriptor transfers, for stdin, stdout and
  stderr in this order: \<open>-1\<close> (no descriptor) for a stream that is a terminal, the
  stream's own descriptor otherwise. One integer follows, 1 if and only if some stream is
  a terminal; when it is 1 exactly one descriptor is received back, when it is 0 none.
  No other descriptor transfer happens in the run.
\<close>

theorem accepted_transfers_three:
  assumes "ack_reply w = Some 0"
    and "E_connect_daemon \<in> set (fst (su_client_main w argv))"
  shows "\<exists>su_req rest.
           fst (su_client_main w argv) =
             send_request w su_req
             @ [E_isatty STDIN_FILENO, E_isatty STDOUT_FILENO, E_isatty STDERR_FILENO]
             @ [E_send_fd (daemon_fd w) (if stdin_tty w then - 1 else STDIN_FILENO),
                E_send_fd (daemon_fd w) (if stdout_tty w then - 1 else STDOUT_FILENO),
                E_send_fd (daemon_fd w) (if stderr_tty w then - 1 else STDERR_FILENO),
                E_write_int (daemon_fd w)
                  (if stdin_tty w \<or> stdout_tty w \<or> stderr_tty w then 1 else 0)]
             @ (if stdin_tty w \<or> stdout_tty w \<or> stderr_tty w
                then [E_recv_fd (daemon_fd w)] else [])
             @ rest
           \<and> filter is_fd_transfer (send_request w su_req) = []
           \<and> filter is_fd_transfer rest = []"
proof -
  from assms(2) obtain su_req where m: "su_client_main w argv = su_client_session w su_req"
    by (rule connect_sent)
  have "\<exists>tl. fst (su_client_session w su_req) =
          send_request w su_req @ send_fds w (atty_mask w) @ run_pumps w (atty_mask w) @ tl
        \<and> filter is_fd_transfer tl = []"
  proof (cases rule: su_client_session_cases[of w su_req])
    case lost_ack
    with assms(1) show ?thesis by simp
  next
    case (denied v)
    with assms(1) show ?thesis by simp
  next
    case lost_code
    then show ?thesis by simp
  next
    case (completed c)
    then show ?thesis by simp
  qed
  then obtain tl where t: "fst (su_client_session w su_req) =
          send_request w su_req @ send_fds w (atty_mask w) @ run_pumps w (atty_mask w) @ tl"
    and f: "filter is_fd_transfer tl = []" by blast
  let ?rest = "run_pumps w (atty_mask w) @ tl"
  have "fst (su_client_main w argv) =
             send_request w su_req
             @ [E_isatty STDIN_FILENO, E_isatty STDOUT_FILENO, E_isatty STDERR_FILENO]
             @ [E_send_fd (daemon_fd w) (if stdin_tty w then - 1 else STDIN_FILENO),
                E_send_fd (daemon_fd w) (if stdout_tty w then - 1 else STDOUT_FILENO),
                E_send_fd (daemon_fd w) (if stderr_tty w then - 1 else STDERR_FILENO),
                E_write_int (daemon_fd w)
                  (if stdin_tty w \<or> stdout_tty w \<or> stderr_tty w then 1 else 0)]
             @ (if stdin_tty w \<or> stdout_tty w \<or> stderr_tty w
                then [E_recv_fd (daemon_fd w)] else [])
             @ ?rest"
    unfolding m t send_fds_explicit by simp
  moreover have "filter is_fd_transfer ?rest = []"
    using f by (simp add: run_pumps_no_transfer)
  ultimately show ?thesis using send_request_no_transfer by blast
qed

theorem accepted_transfers_three_witness:
  "ack_reply w_out_tty = Some 0 \<and>
   E_connect_daemon \<in> set (fst (su_client_main w_out_tty [''su''])) \<and>
   filter is_fd_transfer (fst (su_client_main w_out_tty [''su''])) =
     [E_send_fd 3 0, E_send_fd 3 (- 1), E_send_fd 3 2, E_recv_fd 3]"
proof -
  have a: "ack_reply w_out_tty = Some 0" by code_simp
  have b: "E_connect_daemon \<in> set (fst (su_client_main w_out_tty [''su'']))" by code_simp
  from accepted_transfers_three[OF a b] obtain su_req rest where
    "fst (su_client_main w_out_tty [''su'']) =
             send_request w_out_tty su_req
             @ [E_isatty STDIN_FILENO, E_isatty STDOUT_FILENO, E_isatty STDERR_FILENO]
             @ [E_send_fd (daemon_fd w_out_tty) (if stdin_tty w_out_tty then - 1 else STDIN_FILENO),
                E_send_fd (daemon_fd w_out_tty) (if stdout_tty w_out_tty then - 1 else STDOUT_FILENO),
                E_send_fd (daemon_fd w_out_tty) (if stderr_tty w_out_tty then - 1 else STDERR_FILENO),
                E_write_int (daemon_fd w_out_tty)
                  (if stdin_tty w_out_tty \<or> stdout_tty w_out_tty \<or> stderr_tty w_out_tty then 1 else 0)]
             @ (if stdin_tty w_out_tty \<or> stdout_tty w_out_tty \<or> stderr_tty w_out_tty
                then [E_recv_fd (daemon_fd w_out_tty)] else [])
             @ rest"
    "filter is_fd_transfer (send_request w_out_tty su_req) = []"
    "filter is_fd_transfer rest = []" by blast
  then have "filter is_fd_transfer (fst (su_client_main w_out_tty [''su''])) =
     [E_send_fd 3 0, E_send_fd 3 (- 1), E_send_fd 3 2, E_recv_fd 3]"
    by (simp add: w_out_tty_def w_files_def STDIN_FILENO_def STDERR_FILENO_def)
  with a b show ?thesis by simp
qed

text \<open>
  C4. A run that reaches the daemon sends, in this order, the fixed-layout fields of the
  request, the shell (its length, then its bytes) and the command (its length, then its
  bytes), and then reads one integer. When it is zero the run goes on to the descriptor
  exchange and returns the exit code read at the end (when that read fails, the process
  ends with the status of the communication error). When it is not zero, the only thing
  that follows is the message on standard error, and the run returns \<^verbatim>\<open>EACCES\<close>. When
  the read of the acknowledgment itself fails, the only thing that follows is the message
  of the communication error.
\<close>

theorem request_then_ack:
  assumes "E_connect_daemon \<in> set (fst (su_client_main w argv))"
  shows "\<exists>su_req rest.
           parse_args w argv = Inr su_req \<and>
           fst (su_client_main w argv) =
             [E_connect_daemon,
              E_xwrite_req (daemon_fd w) (su_req_base.truncate su_req),
              E_write_int (daemon_fd w) (int (length (shell su_req))),
              E_xwrite_bytes (daemon_fd w) (shell su_req),
              E_write_int (daemon_fd w) (int (length (command su_req))),
              E_xwrite_bytes (daemon_fd w) (command su_req),
              E_read_int (daemon_fd w)] @ rest \<and>
           (case ack_reply w of
              Some ack \<Rightarrow>
                if ack = 0
                then hd rest = E_isatty STDIN_FILENO \<and> filter is_fd_transfer rest \<noteq> [] \<and>
                     (case code_reply w of
                        Some code \<Rightarrow> snd (su_client_main w argv) = Return code
                      | None \<Rightarrow> snd (su_client_main w argv) = Exit (comm_error_status w))
                else rest = [E_fprintf Stderr (strerror_EACCES @ newline)] \<and>
                     snd (su_client_main w argv) = Return EACCES
            | None \<Rightarrow>
                rest = [E_fprintf Stderr (comm_error_text w)] \<and>
                snd (su_client_main w argv) = Exit (comm_error_status w))"
proof -
  from assms obtain su_req where p: "parse_args w argv = Inr su_req"
    and m: "su_client_main w argv = su_client_session w su_req"
    by (rule connect_sent)
  show ?thesis
  proof (cases rule: su_client_session_cases[of w su_req])
    case lost_ack
    with p m show ?thesis by (simp add: send_request_def write_string_def)
  next
    case (denied v)
    with p m show ?thesis by (simp add: send_request_def write_string_def)
  next
    case lost_code
    with p m show ?thesis by (simp add: send_request_def write_string_def send_fds_def)
  next
    case (completed c)
    with p m show ?thesis by (simp add: send_request_def write_string_def send_fds_def)
  qed
qed

theorem request_then_ack_witness:
  "E_connect_daemon \<in> set (fst (su_client_main w_files [''su'', ''-s'', ''sh'', ''-c'', ''id''])) \<and>
   take 7 (fst (su_client_main w_files [''su'', ''-s'', ''sh'', ''-c'', ''id''])) =
     [E_connect_daemon,
      E_xwrite_req 3 \<lparr>uid = 0, login = False, keepenv = False, mount_master = False\<rparr>,
      E_write_int 3 2, E_xwrite_bytes 3 ''sh'', E_write_int 3 2, E_xwrite_bytes 3 ''id'',
      E_read_int 3]"
proof -
  have b: "E_connect_daemon \<in> set (fst (su_client_main w_files [''su'', ''-s'', ''sh'', ''-c'', ''id'']))"
    by code_simp
  have p: "parse_args w_files [''su'', ''-s'', ''sh'', ''-c'', ''id''] =
    Inr \<lparr>uid = 0, login = False, keepenv = False, mount_master = False,
         shell = ''sh'', command = ''id''\<rparr>" by code_simp
  from request_then_ack[OF b] p
  have "take 7 (fst (su_client_main w_files [''su'', ''-s'', ''sh'', ''-c'', ''id''])) =
     [E_connect_daemon,
      E_xwrite_req 3 \<lparr>uid = 0, login = False, keepenv = False, mount_master = False\<rparr>,
      E_write_int 3 2, E_xwrite_bytes 3 ''sh'', E_write_int 3 2, E_xwrite_bytes 3 ''id'',
      E_read_int 3]"
    by (auto simp: w_files_def su_req_base.truncate_def)
  with b show ?thesis by simp
qed

text \<open>
  C5, as the code has it. With a pseudo-terminal negotiated (zero acknowledgment, some
  stream a terminal) the read of the exit code is the call that follows the return of the
  blocking output pump, and before that return the channel was read once, for the
  acknowledgment. The pump returns at the end of the stream on the master unless a
  signal of \<^verbatim>\<open>quit_signals\<close> is caught while it blocks: then the handler runs, the pump
  returns without having seen the end of the stream, and the exit code is read all the
  same. Everything before the first pump event is the complete handshake (the request up
  to the read of the acknowledgment, the descriptor exchange up to the receipt of the
  master) and the installation of the handlers; no call of the handshake follows the
  first pump event.
\<close>

theorem pumps_after_handshake_before_exit_code:
  assumes "E_connect_daemon \<in> set (fst (su_client_main w argv))"
    and "ack_reply w = Some 0"
    and "stdin_tty w \<or> stdout_tty w \<or> stderr_tty w"
  shows "dropWhile (\<lambda>e. e \<noteq> pump_return w) (fst (su_client_main w argv))
           = pump_return w # E_read_int (daemon_fd w) # exit_tail w
         \<and> filter (\<lambda>e. e = E_read_int (daemon_fd w))
             (takeWhile (\<lambda>e. e \<noteq> pump_return w) (fst (su_client_main w argv)))
           = [E_read_int (daemon_fd w)]
         \<and> (signal_caught w \<longleftrightarrow> E_pump_stdout_eos (ptmx_fd w) \<notin> set (fst (su_client_main w argv)))
         \<and> dropWhile (\<lambda>e. e \<noteq> E_pump_stdout_start (ptmx_fd w)) (fst (su_client_main w argv))
           = E_pump_stdout_start (ptmx_fd w)
             # (if signal_caught w then sighandler (the (pump_signal w)) else [])
             @ pump_return w # E_read_int (daemon_fd w) # exit_tail w
         \<and> (\<exists>su_req.
              takeWhile (\<lambda>e. \<not> is_pump e) (fst (su_client_main w argv))
                = send_request w su_req @ send_fds w (atty_mask w) @ setup_sighandlers Sighandler
              \<and> last (send_request w su_req) = E_read_int (daemon_fd w)
              \<and> last (send_fds w (atty_mask w)) = E_recv_fd (daemon_fd w))
         \<and> filter is_handshake (dropWhile (\<lambda>e. \<not> is_pump e) (fst (su_client_main w argv))) = []
         \<and> filter is_pump (dropWhile (\<lambda>e. \<not> is_pump e) (fst (su_client_main w argv)))
           = [E_watch_sigwinch_async STDOUT_FILENO (ptmx_fd w), E_set_stdin_raw,
              E_pump_stdin_async (ptmx_fd w), E_pump_stdout_start (ptmx_fd w),
              pump_return w]"
proof -
  from assms(1) obtain su_req where m: "su_client_main w argv = su_client_session w su_req"
    by (rule connect_sent)
  from assms(3) have nz: "atty_mask w \<noteq> 0" by (simp add: atty_mask_zero)
  let ?hs = "send_request w su_req @ send_fds w (atty_mask w) @ setup_sighandlers Sighandler"
  let ?ret = "pump_return w"
  let ?start = "E_pump_stdout_start (ptmx_fd w)"
  let ?h = "if signal_caught w then sighandler (the (pump_signal w)) else []"
  let ?fin = "E_read_int (daemon_fd w) # exit_tail w"
  let ?mid = "[E_watch_sigwinch_async STDOUT_FILENO (ptmx_fd w), E_set_stdin_raw,
              E_pump_stdin_async (ptmx_fd w)]"
  have tr: "fst (su_client_main w argv) = ?hs @ ?mid @ ?start # ?h @ ?ret # ?fin"
    unfolding m session_accepted[OF assms(2)] run_pumps_tty[OF assms(3)] by simp
  have hs_ev: "e \<in> set ?hs \<Longrightarrow> \<not> is_pump e \<and> e \<noteq> E_restore_stdin \<and> \<not> is_close e" for e
    by (auto simp: send_request_def write_string_def send_fds_def setup_sighandlers_def
        dest: sigaction_all_events split: if_splits)
  have h_ev: "e \<in> set ?h \<Longrightarrow> \<not> is_pump e \<and> \<not> is_handshake e \<and> e \<noteq> E_read_int f" for e f
    by (auto simp: sighandler_events split: if_splits)
  have ret_pump: "is_pump ?ret" by (simp add: pump_return_def)
  have ret_ne: "?ret \<noteq> ?start" "?ret \<notin> set ?mid" by (simp_all add: pump_return_def)
  have noret: "?ret \<notin> set (?hs @ ?mid @ ?start # ?h)"
    using hs_ev[of ?ret] h_ev[of ?ret] ret_pump ret_ne by auto
  have tr2: "fst (su_client_main w argv) = (?hs @ ?mid @ ?start # ?h) @ ?ret # ?fin"
    using tr by simp
  have a: "dropWhile (\<lambda>e. e \<noteq> ?ret) (fst (su_client_main w argv)) = ?ret # ?fin"
    unfolding tr2 using noret by (rule dropWhile_neq_prefix)
  have tw: "takeWhile (\<lambda>e. e \<noteq> ?ret) (fst (su_client_main w argv)) = ?hs @ ?mid @ ?start # ?h"
    unfolding tr2 using noret by (rule takeWhile_neq_prefix)
  have hread: "filter (\<lambda>e. e = E_read_int (daemon_fd w)) ?h = []"
    using h_ev[of _ "daemon_fd w"] by (auto simp: filter_empty_conv)
  have hsread: "filter (\<lambda>e. e = E_read_int (daemon_fd w)) ?hs = [E_read_int (daemon_fd w)]"
    by (simp add: send_request_def write_string_def send_fds_def setup_sighandlers_def
        sigaction_all_no_read)
  have midread: "filter (\<lambda>e. e = E_read_int (daemon_fd w)) (?mid @ [?start]) = []"
    by simp
  have split1: "?hs @ ?mid @ ?start # ?h = ?hs @ (?mid @ [?start]) @ ?h" by simp
  have b: "filter (\<lambda>e. e = E_read_int (daemon_fd w))
             (takeWhile (\<lambda>e. e \<noteq> ?ret) (fst (su_client_main w argv)))
           = [E_read_int (daemon_fd w)]"
    unfolding tw split1 filter_append[of _ ?hs] filter_append[of _ "?mid @ [?start]"]
      hsread midread hread by simp
  have fin_ev: "E_pump_stdout_eos (ptmx_fd w) \<notin> set ?fin"
    by (simp add: exit_tail_def split: option.splits)
  have eos: "signal_caught w \<longleftrightarrow> E_pump_stdout_eos (ptmx_fd w) \<notin> set (fst (su_client_main w argv))"
  proof (cases "signal_caught w")
    case True
    then have "E_pump_stdout_eos (ptmx_fd w) \<notin> set (?hs @ ?mid @ ?start # ?h @ [?ret])"
      using hs_ev[of "E_pump_stdout_eos (ptmx_fd w)"] h_ev[of "E_pump_stdout_eos (ptmx_fd w)"]
      by (auto simp: pump_return_def)
    with fin_ev True show ?thesis unfolding tr by auto
  next
    case False
    then show ?thesis unfolding tr by (simp add: pump_return_def)
  qed
  have nostart: "?start \<notin> set (?hs @ ?mid)"
    using hs_ev[of ?start] by auto
  have tr3: "fst (su_client_main w argv) = (?hs @ ?mid) @ ?start # (?h @ ?ret # ?fin)"
    using tr by simp
  have s: "dropWhile (\<lambda>e. e \<noteq> ?start) (fst (su_client_main w argv)) = ?start # ?h @ ?ret # ?fin"
    unfolding tr3 using nostart by (rule dropWhile_neq_prefix)
  have tr4: "fst (su_client_main w argv) =
      ?hs @ E_watch_sigwinch_async STDOUT_FILENO (ptmx_fd w)
        # ([E_set_stdin_raw, E_pump_stdin_async (ptmx_fd w)] @ ?start # ?h @ ?ret # ?fin)"
    using tr by simp
  have c: "takeWhile (\<lambda>e. \<not> is_pump e) (fst (su_client_main w argv)) = ?hs"
    unfolding tr4 by (rule takeWhile_not_pump_prefix[OF handshake_no_pump]) simp
  have d0: "dropWhile (\<lambda>e. \<not> is_pump e) (fst (su_client_main w argv)) =
             E_watch_sigwinch_async STDOUT_FILENO (ptmx_fd w)
        # ([E_set_stdin_raw, E_pump_stdin_async (ptmx_fd w)] @ ?start # ?h @ ?ret # ?fin)"
    unfolding tr4 by (rule dropWhile_not_pump_prefix[OF handshake_no_pump]) simp
  have d: "dropWhile (\<lambda>e. \<not> is_pump e) (fst (su_client_main w argv)) =
             ?mid @ ?start # ?h @ ?ret # ?fin"
    unfolding d0 by simp
  have e: "last (send_request w su_req) = E_read_int (daemon_fd w)"
    by (simp add: send_request_def write_string_def)
  have f: "last (send_fds w (atty_mask w)) = E_recv_fd (daemon_fd w)"
    using nz by (simp add: send_fds_def)
  have hpump: "filter is_pump ?h = []" and hhand: "filter is_handshake ?h = []"
    using h_ev by (auto simp: filter_empty_conv)
  have fin_p: "filter is_pump ?fin = []" and fin_h: "filter is_handshake ?fin = []"
    by (simp_all add: exit_tail_def split: option.splits)
  have ret_h: "filter is_handshake [?ret] = []" and ret_p: "filter is_pump [?ret] = [?ret]"
    by (simp_all add: pump_return_def)
  have mid_h: "filter is_handshake (?mid @ [?start]) = []"
    and mid_p: "filter is_pump (?mid @ [?start]) = ?mid @ [?start]"
    by simp_all
  have split2: "?mid @ ?start # ?h @ ?ret # ?fin = (?mid @ [?start]) @ ?h @ [?ret] @ ?fin"
    by simp
  have g: "filter is_handshake (?mid @ ?start # ?h @ ?ret # ?fin) = []"
    unfolding split2 filter_append[of _ "?mid @ [?start]"] filter_append[of _ ?h]
      filter_append[of _ "[?ret]"] mid_h hhand ret_h fin_h by simp
  have i: "filter is_pump (?mid @ ?start # ?h @ ?ret # ?fin) = ?mid @ [?start, ?ret]"
    unfolding split2 filter_append[of _ "?mid @ [?start]"] filter_append[of _ ?h]
      filter_append[of _ "[?ret]"] mid_p hpump ret_p fin_p by simp
  from a b eos s c e f g i show ?thesis unfolding d by auto
qed

theorem pumps_after_handshake_before_exit_code_witness:
  "E_connect_daemon \<in> set (fst (su_client_main w_tty [''su''])) \<and>
   ack_reply w_tty = Some 0 \<and>
   (stdin_tty w_tty \<or> stdout_tty w_tty \<or> stderr_tty w_tty) \<and>
   dropWhile (\<lambda>e. e \<noteq> E_pump_stdout_eos 4) (fst (su_client_main w_tty [''su'']))
     = [E_pump_stdout_eos 4, E_read_int 3, E_close 3]"
proof -
  have a: "E_connect_daemon \<in> set (fst (su_client_main w_tty [''su'']))" by code_simp
  have b: "ack_reply w_tty = Some 0" by code_simp
  have c: "stdin_tty w_tty \<or> stdout_tty w_tty \<or> stderr_tty w_tty" by code_simp
  have r: "pump_return w_tty = E_pump_stdout_eos 4" by code_simp
  have t: "exit_tail w_tty = [E_close 3]" by code_simp
  have f: "daemon_fd w_tty = 3" by code_simp
  from pumps_after_handshake_before_exit_code[OF a b c, THEN conjunct1]
  have "dropWhile (\<lambda>e. e \<noteq> E_pump_stdout_eos 4) (fst (su_client_main w_tty [''su'']))
     = [E_pump_stdout_eos 4, E_read_int 3, E_close 3]"
    unfolding r t f .
  with a b c show ?thesis by simp
qed

text \<open>
  C5 as stated fails in its first part: when an interrupt is caught while the output pump
  blocks, the pump never sees the end of the stream on the master, and the exit code is
  read and returned.
\<close>

theorem exit_code_read_without_end_of_stream:
  "E_pump_stdout_start 4 \<in> set (fst (su_client_main w_tty_signal [''su''])) \<and>
   E_pump_stdout_eos 4 \<notin> set (fst (su_client_main w_tty_signal [''su''])) \<and>
   dropWhile (\<lambda>e. e \<noteq> E_pump_stdout_unblocked 4) (fst (su_client_main w_tty_signal [''su'']))
     = [E_pump_stdout_unblocked 4, E_read_int 3, E_close 3] \<and>
   snd (su_client_main w_tty_signal [''su'']) = Return 0"
  by code_simp






text \<open>
  C8, as the code has it. The handler restores the terminal, closes stdin, stdout and
  stderr, and sets the default disposition for each of the seven signals, in this order,
  and does nothing else: it does not raise the signal again. So the delivery that runs
  the handler does not end the process (the terminal is out of raw mode, the three
  streams are closed, the main flow goes on); any signal of the set delivered after it
  does.
\<close>

theorem sighandler_cleans_up_and_returns:
  "sighandler sig =
     [E_restore_stdin,
      E_close STDIN_FILENO, E_close STDOUT_FILENO, E_close STDERR_FILENO,
      E_sigaction SIGALRM SIG_DFL, E_sigaction SIGABRT SIG_DFL, E_sigaction SIGHUP SIG_DFL,
      E_sigaction SIGPIPE SIG_DFL, E_sigaction SIGQUIT SIG_DFL, E_sigaction SIGTERM SIG_DFL,
      E_sigaction SIGINT SIG_DFL]
   \<and> (killed_by p = None \<and> disposition p sig = Sighandler \<longrightarrow>
        killed_by (deliver sig p) = None \<and>
        \<not> tty_raw (deliver sig p) \<and>
        closed (deliver sig p) = closed p @ [STDIN_FILENO, STDOUT_FILENO, STDERR_FILENO] \<and>
        (\<forall>s \<in> quit_signal_set.
           disposition (deliver sig p) s = SIG_DFL \<and>
           killed_by (deliver s (deliver sig p)) = Some s))"
proof -
  have "sighandler sig =
     [E_restore_stdin,
      E_close STDIN_FILENO, E_close STDOUT_FILENO, E_close STDERR_FILENO,
      E_sigaction SIGALRM SIG_DFL, E_sigaction SIGABRT SIG_DFL, E_sigaction SIGHUP SIG_DFL,
      E_sigaction SIGPIPE SIG_DFL, E_sigaction SIGQUIT SIG_DFL, E_sigaction SIGTERM SIG_DFL,
      E_sigaction SIGINT SIG_DFL]"
    by (simp add: sighandler_def quit_signals_def
      SIGALRM_def SIGABRT_def SIGHUP_def SIGPIPE_def SIGQUIT_def SIGTERM_def SIGINT_def)
  moreover have "killed_by p = None \<and> disposition p sig = Sighandler \<longrightarrow>
        killed_by (deliver sig p) = None \<and>
        \<not> tty_raw (deliver sig p) \<and>
        closed (deliver sig p) = closed p @ [STDIN_FILENO, STDOUT_FILENO, STDERR_FILENO] \<and>
        (\<forall>s \<in> quit_signal_set.
           disposition (deliver sig p) s = SIG_DFL \<and>
           killed_by (deliver s (deliver sig p)) = Some s)"
    by (simp add: deliver_def exec_sighandler)
  ultimately show ?thesis by blast
qed

theorem sighandler_cleans_up_and_returns_witness:
  "killed_by p_running = None \<and> disposition p_running SIGINT = Sighandler \<and>
   tty_raw p_running \<and>
   killed_by (deliver SIGINT p_running) = None \<and>
   \<not> tty_raw (deliver SIGINT p_running) \<and>
   closed (deliver SIGINT p_running) = [0, 1, 2] \<and>
   disposition (deliver SIGINT p_running) SIGTERM = SIG_DFL \<and>
   killed_by (deliver SIGTERM (deliver SIGINT p_running)) = Some SIGTERM"
proof -
  have a: "killed_by p_running = None" by code_simp
  have b: "disposition p_running SIGINT = Sighandler" by code_simp
  have c: "tty_raw p_running" by code_simp
  have d: "closed p_running = []" by code_simp
  have e: "SIGTERM \<in> quit_signal_set" by (simp add: quit_signal_set_def)
  from a b c d e sighandler_cleans_up_and_returns[of SIGINT p_running]
  show ?thesis by (simp add: STDIN_FILENO_def STDOUT_FILENO_def STDERR_FILENO_def)
qed

text \<open>
  C8 as stated fails in its last part: the fatal effect of the signal that runs the
  handler is suppressed, the process is alive after the delivery.
\<close>

theorem caught_signal_does_not_kill:
  "SIGINT \<in> set quit_signals \<and> disposition p_running SIGINT = Sighandler \<and>
   killed_by (deliver SIGINT p_running) = None"
  by code_simp

text \<open>
  C9, as the code has it. The rewriting makes \<^verbatim>\<open>-mm\<close> the option \<^verbatim>\<open>-M\<close> and \<^verbatim>\<open>-cn\<close>
  the option \<^verbatim>\<open>-z\<close> wherever they stand: a run is the run on the vector with the legacy
  spelling replaced. The case for \<open>M\<close> sets the mount-master flag and nothing else, the
  case for \<open>z\<close> changes nothing; \<^verbatim>\<open>su -mm\<close>, \<^verbatim>\<open>su -M\<close> and \<^verbatim>\<open>su --mount-master\<close> build
  the initial request with the flag set. But \<^verbatim>\<open>-z\<close> takes an argument: \<^verbatim>\<open>su -cn ARG\<close>
  builds the request \<^verbatim>\<open>su\<close> builds, having consumed \<open>ARG\<close>, and \<^verbatim>\<open>su -cn\<close> is a usage
  error with exit status 2.
\<close>

theorem legacy_spellings_are_rewritten:
  "su_client_main w (map (\<lambda>x. if x = ''-mm'' then ''-M'' else x) argv) = su_client_main w argv
   \<and> su_client_main w (map (\<lambda>x. if x = ''-cn'' then ''-z'' else x) argv) = su_client_main w argv
   \<and> (getopt_long (\<not> posixly_correct w) argc st = (Some (CHR ''M''), st') \<longrightarrow>
        getopt_loop w argc st su_req = getopt_loop w argc st' (su_req\<lparr>mount_master := True\<rparr>))
   \<and> (getopt_long (\<not> posixly_correct w) argc st = (Some (CHR ''z''), st') \<longrightarrow>
        getopt_loop w argc st su_req = getopt_loop w argc st' su_req)
   \<and> (opt = ''-mm'' \<or> opt = ''-M'' \<or> opt = ''--mount-master'' \<longrightarrow>
        parse_args w [prog, opt] = Inr ((su_request_init w)\<lparr>mount_master := True\<rparr>))
   \<and> (opt' = ''-cn'' \<or> opt' = ''-z'' \<longrightarrow>
        parse_args w [prog, opt', a] = Inr (su_request_init w) \<and>
        parse_args w [prog] = Inr (su_request_init w) \<and>
        parse_args w [prog, opt'] = Inl (E_fprintf Stderr newline # fst (usage w 2), Exit 2))"
  using su_client_main_map_mm[of w argv] su_client_main_map_cn[of w argv]
    getopt_loop_M[of w argc st st' su_req] getopt_loop_z[of w argc st st' su_req]
    parse_args_mount_master[of opt w prog] parse_args_context_arg[of opt' w prog a]
    parse_args_no_arguments[of w prog] parse_args_context_alone[of opt' w prog]
  by blast

theorem legacy_spellings_are_rewritten_witness:
  "getopt_long (\<not> posixly_correct w_files) 3 (getopt_init [''su'', ''-M'', ''-l''])
     = (Some (CHR ''M''), (getopt_init [''su'', ''-M'', ''-l''])\<lparr>optind := 2\<rparr>) \<and>
   getopt_loop w_files 3 (getopt_init [''su'', ''-M'', ''-l'']) (su_request_init w_files)
     = getopt_loop w_files 3 ((getopt_init [''su'', ''-M'', ''-l''])\<lparr>optind := 2\<rparr>)
         ((su_request_init w_files)\<lparr>mount_master := True\<rparr>) \<and>
   getopt_long (\<not> posixly_correct w_files) 4 (getopt_init [''su'', ''-z'', ''x'', ''-l''])
     = (Some (CHR ''z''),
        (getopt_init [''su'', ''-z'', ''x'', ''-l''])\<lparr>optind := 3, optarg := Some ''x''\<rparr>) \<and>
   getopt_loop w_files 4 (getopt_init [''su'', ''-z'', ''x'', ''-l'']) (su_request_init w_files)
     = getopt_loop w_files 4
         ((getopt_init [''su'', ''-z'', ''x'', ''-l''])\<lparr>optind := 3, optarg := Some ''x''\<rparr>)
         (su_request_init w_files) \<and>
   parse_args w_files [''su'', ''-mm''] = Inr ((su_request_init w_files)\<lparr>mount_master := True\<rparr>) \<and>
   parse_args w_files [''su'', ''-M''] = Inr ((su_request_init w_files)\<lparr>mount_master := True\<rparr>) \<and>
   parse_args w_files [''su'', ''-cn'', ''u:r:su:s0''] = Inr (su_request_init w_files) \<and>
   parse_args w_files [''su''] = Inr (su_request_init w_files) \<and>
   parse_args w_files [''su'', ''-cn'']
     = Inl (E_fprintf Stderr newline # fst (usage w_files 2), Exit 2)"
proof -
  let ?s1 = "getopt_init [''su'', ''-M'', ''-l'']"
  let ?s1' = "(getopt_init [''su'', ''-M'', ''-l''])\<lparr>optind := 2\<rparr>"
  let ?s2 = "getopt_init [''su'', ''-z'', ''x'', ''-l'']"
  let ?s2' = "(getopt_init [''su'', ''-z'', ''x'', ''-l''])\<lparr>optind := 3, optarg := Some ''x''\<rparr>"
  have g1: "getopt_long (\<not> posixly_correct w_files) 3 ?s1 = (Some (CHR ''M''), ?s1')"
    by code_simp
  have g2: "getopt_long (\<not> posixly_correct w_files) 4 ?s2 = (Some (CHR ''z''), ?s2')"
    by code_simp
  note t1 = legacy_spellings_are_rewritten[of w_files "[]" 3 ?s1 ?s1' "su_request_init w_files"
      "''-mm''" "''su''" "''-cn''" "''u:r:su:s0''"]
  note t2 = legacy_spellings_are_rewritten[of w_files "[]" 4 ?s2 ?s2' "su_request_init w_files"
      "''-M''" "''su''" "''-cn''" "''u:r:su:s0''"]
  have a: "getopt_loop w_files 3 ?s1 (su_request_init w_files)
     = getopt_loop w_files 3 ?s1' ((su_request_init w_files)\<lparr>mount_master := True\<rparr>)"
    using t1 g1 by blast
  have b: "getopt_loop w_files 4 ?s2 (su_request_init w_files)
     = getopt_loop w_files 4 ?s2' (su_request_init w_files)"
    using t2 g2 by blast
  have c: "parse_args w_files [''su'', ''-mm''] = Inr ((su_request_init w_files)\<lparr>mount_master := True\<rparr>)"
    using t1 by blast
  have d: "parse_args w_files [''su'', ''-M''] = Inr ((su_request_init w_files)\<lparr>mount_master := True\<rparr>)"
    using t2 by blast
  have e: "parse_args w_files [''su'', ''-cn'', ''u:r:su:s0''] = Inr (su_request_init w_files) \<and>
    parse_args w_files [''su''] = Inr (su_request_init w_files) \<and>
    parse_args w_files [''su'', ''-cn'']
     = Inl (E_fprintf Stderr newline # fst (usage w_files 2), Exit 2)"
    using t1 by blast
  from g1 g2 a b c d e show ?thesis by blast
qed

text \<open>
  C9 as stated fails for \<^verbatim>\<open>-cn\<close>: alone it ends the process with status 2 before the
  daemon is contacted, and in front of a user name it swallows the name, so the uid of
  the request is not the one \<^verbatim>\<open>su shell\<close> asks for.
\<close>

theorem legacy_cn_is_not_a_no_op:
  "snd (su_client_main w_files [''su'', ''-cn'']) = Exit 2 \<and>
   E_connect_daemon \<notin> set (fst (su_client_main w_files [''su'', ''-cn''])) \<and>
   parse_args w_files [''su'', ''-cn'', ''shell''] = Inr (su_request_init w_files) \<and>
   parse_args w_files [''su'', ''shell''] = Inr ((su_request_init w_files)\<lparr>uid := 2000\<rparr>)"
  by code_simp

text \<open>
  C10. When none of the three streams is a terminal, no call of the run changes the
  disposition of a signal or the configuration of the terminal: both are, after the run,
  what they were before it. A run that makes such a call has some stream on a terminal,
  got a zero acknowledgment, and received the master of the pseudo-terminal before the
  first such call.
\<close>

theorem no_terminal_no_handler:
  "(\<not> stdin_tty w \<and> \<not> stdout_tty w \<and> \<not> stderr_tty w \<longrightarrow>
      filter changes_signals_or_terminal (fst (su_client_main w argv)) = [] \<and>
      disposition (exec_events (fst (su_client_main w argv)) p) = disposition p \<and>
      tty_raw (exec_events (fst (su_client_main w argv)) p) = tty_raw p)
   \<and> (filter changes_signals_or_terminal (fst (su_client_main w argv)) \<noteq> [] \<longrightarrow>
        (stdin_tty w \<or> stdout_tty w \<or> stderr_tty w) \<and>
        ack_reply w = Some 0 \<and>
        E_recv_fd (daemon_fd w)
          \<in> set (takeWhile (\<lambda>e. \<not> changes_signals_or_terminal e) (fst (su_client_main w argv))))"
proof -
  have a: "filter changes_signals_or_terminal (fst (su_client_main w argv)) \<noteq> [] \<longrightarrow>
        (stdin_tty w \<or> stdout_tty w \<or> stderr_tty w) \<and>
        ack_reply w = Some 0 \<and>
        E_recv_fd (daemon_fd w)
          \<in> set (takeWhile (\<lambda>e. \<not> changes_signals_or_terminal e) (fst (su_client_main w argv)))"
  proof (cases rule: su_client_main_cases[of w argv])
    case (left es k)
    with prints_change_nothing[of es] show ?thesis by simp
  next
    case (sent su_req)
    show ?thesis
    proof (cases "ack_reply w = Some 0")
      case False
      with sent show ?thesis by (simp add: session_not_accepted_changes_nothing)
    next
      case True
      show ?thesis
      proof (cases "stdin_tty w \<or> stdout_tty w \<or> stderr_tty w")
        case False
        with no_tty_changes_nothing[of w argv] show ?thesis by simp
      next
        case tty: True
        then have nz: "atty_mask w \<noteq> 0" by (simp add: atty_mask_zero)
        let ?hs = "send_request w su_req @ send_fds w (atty_mask w)"
        have tr: "fst (su_client_main w argv) =
                    ?hs @ E_sigaction SIGALRM Sighandler
                      # (tl (run_pumps w (atty_mask w)) @ E_read_int (daemon_fd w) # exit_tail w)"
          unfolding sent(2) session_accepted[OF True] run_pumps_tty[OF tty]
            setup_sighandlers_events by simp
        have q: "\<forall>e \<in> set ?hs. \<not> changes_signals_or_terminal e"
          using handshake_changes_nothing[of w su_req "atty_mask w"]
          by (auto simp: filter_empty_conv)
        have "takeWhile (\<lambda>e. \<not> changes_signals_or_terminal e) (fst (su_client_main w argv)) = ?hs"
          unfolding tr using q by (simp add: takeWhile_append2)
        moreover have "E_recv_fd (daemon_fd w) \<in> set ?hs" using nz by (simp add: send_fds_def)
        ultimately show ?thesis using tty True by simp
      qed
    qed
  qed
  have "\<not> stdin_tty w \<and> \<not> stdout_tty w \<and> \<not> stderr_tty w \<longrightarrow>
      filter changes_signals_or_terminal (fst (su_client_main w argv)) = []"
    using a by blast
  with a exec_events_unchanged[of "fst (su_client_main w argv)" p] show ?thesis by blast
qed

theorem no_terminal_no_handler_witness:
  "\<not> stdin_tty w_files \<and> \<not> stdout_tty w_files \<and> \<not> stderr_tty w_files \<and>
   filter changes_signals_or_terminal (fst (su_client_main w_files [''su'', ''-c'', ''id''])) = [] \<and>
   filter changes_signals_or_terminal (fst (su_client_main w_out_tty [''su''])) \<noteq> [] \<and>
   (stdin_tty w_out_tty \<or> stdout_tty w_out_tty \<or> stderr_tty w_out_tty) \<and>
   ack_reply w_out_tty = Some 0"
proof -
  have a: "\<not> stdin_tty w_files \<and> \<not> stdout_tty w_files \<and> \<not> stderr_tty w_files" by code_simp
  have b: "filter changes_signals_or_terminal (fst (su_client_main w_out_tty [''su''])) \<noteq> []"
    by code_simp
  from a no_terminal_no_handler[of w_files "[''su'', ''-c'', ''id'']"]
  have c: "filter changes_signals_or_terminal (fst (su_client_main w_files [''su'', ''-c'', ''id''])) = []"
    by blast
  from b no_terminal_no_handler[of w_out_tty "[''su'']"]
  have d: "(stdin_tty w_out_tty \<or> stdout_tty w_out_tty \<or> stderr_tty w_out_tty) \<and>
     ack_reply w_out_tty = Some 0" by blast
  from a b c d show ?thesis by blast
qed

end
